theory Spec2Isabelle
  imports Complex_Main
begin

section \<open>Values, exceptions and cells\<close>

text \<open>
  The development embeds \<^verbatim>\<open>src/data_conversion/conversion.py\<close>: the per-instrument
  normalizer \<^verbatim>\<open>process_stock_data\<close>, the batch driver \<^verbatim>\<open>main\<close> and the manifest
  generator \<^verbatim>\<open>generate_instruments_file\<close>.

  Python strings are modelled as \<open>string\<close>, holding the UTF-8 bytes of the text. The
  script only concatenates strings, compares them and splits them at ASCII characters,
  and all of these agree on the UTF-8 encoding.

  The pandas calls are modelled at the level of their documented behaviour on frames with
  a default integer index (the index \<^verbatim>\<open>read_csv\<close> and \<^verbatim>\<open>merge\<close> produce). A float64
  value is an extended rational: rounding, overflow to infinity and the sign of zero are
  not modelled. An int64 value is an integer, and integer arithmetic wraps modulo \<open>2^64\<close>.
\<close>

datatype exn =
    FileNotFoundError string
  | ParserError string
  | KeyError string
  | ValueError string
  | TypeError string
  | PermissionError string
  | KeyboardInterrupt

text \<open>
  \<^verbatim>\<open>except Exception\<close> catches every class derived from \<^verbatim>\<open>Exception\<close>;
  \<^verbatim>\<open>KeyboardInterrupt\<close> derives from \<^verbatim>\<open>BaseException\<close> only.
\<close>

fun is_Exception :: "exn \<Rightarrow> bool" where
  "is_Exception KeyboardInterrupt = False"
| "is_Exception _ = True"

text \<open>\<^verbatim>\<open>str(e)\<close>: the message the exception carries.\<close>

fun str_of :: "exn \<Rightarrow> string" where
  "str_of (FileNotFoundError m) = m"
| "str_of (ParserError m) = m"
| "str_of (KeyError m) = m"
| "str_of (ValueError m) = m"
| "str_of (TypeError m) = m"
| "str_of (PermissionError m) = m"
| "str_of KeyboardInterrupt = []"

text \<open>Sequencing of steps that may raise: the first exception ends the computation.\<close>

definition andThen :: "exn + 'a \<Rightarrow> ('a \<Rightarrow> exn + 'b) \<Rightarrow> exn + 'b" where
  "andThen m f = (case m of Inl e \<Rightarrow> Inl e | Inr x \<Rightarrow> f x)"

fun mapM :: "('a \<Rightarrow> exn + 'b) \<Rightarrow> 'a list \<Rightarrow> exn + 'b list" where
  "mapM f [] = Inr []"
| "mapM f (x # xs) =
     (case f x of
        Inl e \<Rightarrow> Inl e
      | Inr y \<Rightarrow> (case mapM f xs of Inl e \<Rightarrow> Inl e | Inr ys \<Rightarrow> Inr (y # ys)))"

datatype fl = NaN | PInf | NInf | Fin rat

fun fl_mul :: "fl \<Rightarrow> fl \<Rightarrow> fl" where
  "fl_mul NaN _ = NaN"
| "fl_mul _ NaN = NaN"
| "fl_mul (Fin a) (Fin b) = Fin (a * b)"
| "fl_mul (Fin a) PInf = (if a > 0 then PInf else if a < 0 then NInf else NaN)"
| "fl_mul (Fin a) NInf = (if a > 0 then NInf else if a < 0 then PInf else NaN)"
| "fl_mul PInf (Fin b) = (if b > 0 then PInf else if b < 0 then NInf else NaN)"
| "fl_mul NInf (Fin b) = (if b > 0 then NInf else if b < 0 then PInf else NaN)"
| "fl_mul PInf PInf = PInf"
| "fl_mul PInf NInf = NInf"
| "fl_mul NInf PInf = NInf"
| "fl_mul NInf NInf = PInf"

text \<open>
  Array division does not raise on a zero divisor: a non-zero number over zero is an
  infinity, zero over zero is NaN.
\<close>

fun fl_div :: "fl \<Rightarrow> fl \<Rightarrow> fl" where
  "fl_div NaN _ = NaN"
| "fl_div _ NaN = NaN"
| "fl_div (Fin a) (Fin b) =
     (if b \<noteq> 0 then Fin (a / b)
      else if a > 0 then PInf else if a < 0 then NInf else NaN)"
| "fl_div (Fin a) PInf = Fin 0"
| "fl_div (Fin a) NInf = Fin 0"
| "fl_div PInf (Fin b) = (if b \<ge> 0 then PInf else NInf)"
| "fl_div NInf (Fin b) = (if b \<ge> 0 then NInf else PInf)"
| "fl_div PInf PInf = NaN"
| "fl_div PInf NInf = NaN"
| "fl_div NInf PInf = NaN"
| "fl_div NInf NInf = NaN"

fun fl_gt0 :: "fl \<Rightarrow> bool" where
  "fl_gt0 NaN = False"
| "fl_gt0 PInf = True"
| "fl_gt0 NInf = False"
| "fl_gt0 (Fin a) = (a > 0)"

text \<open>
  A cell of a frame: a string (a column of dtype object), a 64-bit signed integer or a
  float. A missing value is the float NaN.
\<close>

datatype cell = Str string | I64 int | F64 fl

definition nan :: cell where
  "nan = F64 NaN"

definition wrap64 :: "int \<Rightarrow> int" where
  "wrap64 x = (x + 2 ^ 63) mod 2 ^ 64 - 2 ^ 63"

text \<open>
  \<^verbatim>\<open>series * k\<close> for a Python integer \<open>k\<close>, on one element: an int64 product wraps, a
  float is multiplied, a string is repeated.
\<close>

fun mul_scalar :: "cell \<Rightarrow> int \<Rightarrow> cell" where
  "mul_scalar (Str s) k = Str (concat (replicate (nat k) s))"
| "mul_scalar (I64 v) k = I64 (wrap64 (v * k))"
| "mul_scalar (F64 x) k = F64 (fl_mul x (Fin (of_int k)))"

fun to_fl :: "cell \<Rightarrow> fl option" where
  "to_fl (Str s) = None"
| "to_fl (I64 v) = Some (Fin (of_int v))"
| "to_fl (F64 x) = Some x"

text \<open>
  \<^verbatim>\<open>a / b\<close> on one element: true division in float64; a string operand raises
  \<^verbatim>\<open>TypeError\<close>.
\<close>

definition cell_div :: "cell \<Rightarrow> cell \<Rightarrow> exn + cell" where
  "cell_div a b =
     (case (to_fl a, to_fl b) of
        (Some x, Some y) \<Rightarrow> Inr (F64 (fl_div x y))
      | _ \<Rightarrow> Inl (TypeError ''unsupported operand type(s) for /''))"

text \<open>\<^verbatim>\<open>v > 0\<close> on one element.\<close>

fun cell_gt0 :: "cell \<Rightarrow> exn + bool" where
  "cell_gt0 (Str s) = Inl (TypeError ''> not supported between str and int'')"
| "cell_gt0 (I64 v) = Inr (v > 0)"
| "cell_gt0 (F64 x) = Inr (fl_gt0 x)"

definition series_div :: "cell list \<Rightarrow> cell list \<Rightarrow> exn + cell list" where
  "series_div xs ys = mapM (\<lambda>(a, b). cell_div a b) (zip xs ys)"

section \<open>Data frames\<close>

text \<open>
  A frame is its header and its rows in index order; a row pairs each column name with
  the row's cell in that column.
\<close>

type_synonym row = "(string \<times> cell) list"

record dataframe =
  columns :: "string list"
  rows :: "row list"

definition cell_of :: "row \<Rightarrow> string \<Rightarrow> cell" where
  "cell_of r n = (case map_of r n of Some c \<Rightarrow> c | None \<Rightarrow> nan)"

text \<open>\<^verbatim>\<open>df[name]\<close>: the column as a series, \<^verbatim>\<open>KeyError\<close> when the header lacks it.\<close>

definition get_col :: "dataframe \<Rightarrow> string \<Rightarrow> exn + cell list" where
  "get_col df n =
     (if n \<in> set (columns df) then Inr (map (\<lambda>r. cell_of r n) (rows df))
      else Inl (KeyError n))"

definition set_cell :: "row \<Rightarrow> string \<Rightarrow> cell \<Rightarrow> row" where
  "set_cell r n v =
     (if n \<in> set (map fst r) then map (\<lambda>(m, c). if m = n then (m, v) else (m, c)) r
      else r @ [(n, v)])"

text \<open>
  Assigning a series aligns it on the index. Both indexes count from zero, so position
  \<open>i\<close> of the frame receives position \<open>i\<close> of the series, and NaN where the series is
  shorter.
\<close>

definition align :: "nat \<Rightarrow> cell list \<Rightarrow> cell list" where
  "align k vs = take k vs @ replicate (k - length vs) nan"

text \<open>\<^verbatim>\<open>df[name] = series\<close>: replaces the column in place or appends it.\<close>

definition set_col :: "dataframe \<Rightarrow> string \<Rightarrow> cell list \<Rightarrow> dataframe" where
  "set_col df n vs =
     \<lparr>columns = (if n \<in> set (columns df) then columns df else columns df @ [n]),
      rows = map (\<lambda>(r, v). set_cell r n v) (zip (rows df) (align (length (rows df)) vs))\<rparr>"

text \<open>\<^verbatim>\<open>df[name] = scalar\<close>: the scalar in every row.\<close>

definition set_col_scalar :: "dataframe \<Rightarrow> string \<Rightarrow> cell \<Rightarrow> dataframe" where
  "set_col_scalar df n v = set_col df n (replicate (length (rows df)) v)"

text \<open>\<^verbatim>\<open>df[[n1, n2, ...]]\<close>: the named columns in the order given.\<close>

definition select :: "dataframe \<Rightarrow> string list \<Rightarrow> exn + dataframe" where
  "select df ns =
     (case filter (\<lambda>n. n \<notin> set (columns df)) ns of
        [] \<Rightarrow> Inr \<lparr>columns = ns, rows = map (\<lambda>r. map (\<lambda>n. (n, cell_of r n)) ns) (rows df)\<rparr>
      | n # _ \<Rightarrow> Inl (KeyError n))"

text \<open>\<^verbatim>\<open>df.rename(columns=mapping)\<close>: names outside the mapping stay.\<close>

definition rename_one :: "(string \<times> string) list \<Rightarrow> string \<Rightarrow> string" where
  "rename_one mapping n = (case map_of mapping n of Some m \<Rightarrow> m | None \<Rightarrow> n)"

definition rename :: "(string \<times> string) list \<Rightarrow> dataframe \<Rightarrow> dataframe" where
  "rename mapping df =
     \<lparr>columns = map (rename_one mapping) (columns df),
      rows = map (map (\<lambda>(n, c). (rename_one mapping n, c))) (rows df)\<rparr>"

text \<open>
  The partners of a left row in a left join: the right rows whose key equals the left
  row's key \<open>k\<close>, in the right frame's order, or a single missing partner when there is
  none. Keys that are both NaN are equal.
\<close>

definition partners :: "row list \<Rightarrow> string \<Rightarrow> cell \<Rightarrow> row option list" where
  "partners rs key k =
     (case filter (\<lambda>b. cell_of b key = k) rs of [] \<Rightarrow> [None] | ms \<Rightarrow> map Some ms)"

text \<open>The cell a partner contributes to a column: NaN when the partner is missing.\<close>

definition part_cell :: "row option \<Rightarrow> string \<Rightarrow> cell" where
  "part_cell p n = (case p of None \<Rightarrow> nan | Some b \<Rightarrow> cell_of b n)"

text \<open>
  \<^verbatim>\<open>left.merge(right, on=key, how='left', suffixes=(ls, rs))\<close>. Every left row, in
  order, is joined with each of its partners; a missing partner gives NaN in the right
  frame's columns. A column name other than the key that both frames have gets the suffix
  of its side. The result has a fresh index counting from zero.
\<close>

definition merge_left ::
  "dataframe \<Rightarrow> dataframe \<Rightarrow> string \<Rightarrow> string \<times> string \<Rightarrow> exn + dataframe" where
  "merge_left l r key sfx =
     (if key \<notin> set (columns l) \<or> key \<notin> set (columns r) then Inl (KeyError key)
      else
        let overlap = filter (\<lambda>n. n \<noteq> key \<and> n \<in> set (columns r)) (columns l);
            lname = (\<lambda>n. if n \<in> set overlap then n @ fst sfx else n);
            rname = (\<lambda>n. if n \<in> set overlap then n @ snd sfx else n);
            rcols = filter (\<lambda>n. n \<noteq> key) (columns r);
            lrow = (\<lambda>a. map (\<lambda>(n, c). (lname n, c)) a);
            rrow = (\<lambda>p. map (\<lambda>n. (rname n, part_cell p n)) rcols)
        in Inr \<lparr>columns = map lname (columns l) @ map rname rcols,
                rows = concat (map (\<lambda>a.
                   map (\<lambda>p. lrow a @ rrow p) (partners (rows r) key (cell_of a key))) (rows l))\<rparr>)"

text \<open>\<^verbatim>\<open>df.apply(f, axis=1)\<close>: \<open>f\<close> on every row, giving a series.\<close>

definition apply_rows :: "(row \<Rightarrow> exn + cell) \<Rightarrow> dataframe \<Rightarrow> exn + cell list" where
  "apply_rows f df = mapM f (rows df)"

section \<open>The file system and the console\<close>

text \<open>
  A file holds either a table (what \<^verbatim>\<open>read_csv\<close> parses it to and \<^verbatim>\<open>to_csv\<close> writes)
  or text. A path is a directory and a file name, the two arguments of
  \<^verbatim>\<open>os.path.join\<close>. The list \<open>files\<close> is in directory-listing order. A directory in
  \<open>denied\<close> refuses to be created and refuses writes into it.
\<close>

datatype content = Csv dataframe | Text string

type_synonym path = "string \<times> string"

text \<open>
  One constructor per \<^verbatim>\<open>print\<close> call of the script, holding the values its f-string
  interpolates: the number of instruments found (line 124), the instrument and the
  message of a failure (line 110), the success count and the total (line 132), the
  manifest path and its number of entries (line 147).
\<close>

datatype msg =
    Found nat
  | Failed string string
  | Summary nat nat
  | Generated path nat

record world =
  dirs :: "string list"
  files :: "(path \<times> content) list"
  denied :: "string list"
  console :: "msg list"

definition print :: "world \<Rightarrow> msg \<Rightarrow> world" where
  "print w m = w\<lparr>console := console w @ [m]\<rparr>"

definition read_csv :: "world \<Rightarrow> path \<Rightarrow> exn + dataframe" where
  "read_csv w p =
     (case map_of (files w) p of
        None \<Rightarrow> Inl (FileNotFoundError (snd p))
      | Some (Csv df) \<Rightarrow> Inr df
      | Some (Text t) \<Rightarrow> Inl (ParserError (snd p)))"

fun put :: "(path \<times> content) list \<Rightarrow> path \<Rightarrow> content \<Rightarrow> (path \<times> content) list" where
  "put [] p c = [(p, c)]"
| "put ((q, d) # fs) p c = (if q = p then (p, c) # fs else (q, d) # put fs p c)"

text \<open>\<^verbatim>\<open>os.makedirs(d, exist_ok=True)\<close>\<close>

definition makedirs :: "world \<Rightarrow> string \<Rightarrow> exn + world" where
  "makedirs w d =
     (if d \<in> set (dirs w) then Inr w
      else if d \<in> set (denied w) then Inl (PermissionError d)
      else Inr (w\<lparr>dirs := dirs w @ [d]\<rparr>))"

text \<open>Creating or truncating a file and storing its content.\<close>

definition write_file :: "world \<Rightarrow> path \<Rightarrow> content \<Rightarrow> exn + world" where
  "write_file w p c =
     (if fst p \<notin> set (dirs w) then Inl (FileNotFoundError (snd p))
      else if fst p \<in> set (denied w) then Inl (PermissionError (snd p))
      else Inr (w\<lparr>files := put (files w) p c\<rparr>))"

text \<open>
  \<^verbatim>\<open>df.to_csv(path, index=flag)\<close>: with the flag set, the row numbers come first, under
  an empty header.
\<close>

definition with_index :: "dataframe \<Rightarrow> dataframe" where
  "with_index df =
     \<lparr>columns = [] # columns df,
      rows = map (\<lambda>(i, r). ([], I64 (int i)) # r) (zip [0..<length (rows df)] (rows df))\<rparr>"

definition to_csv :: "world \<Rightarrow> dataframe \<Rightarrow> path \<Rightarrow> bool \<Rightarrow> exn + world" where
  "to_csv w df p index = write_file w p (Csv (if index then with_index df else df))"

text \<open>\<^verbatim>\<open>f.write(s)\<close> on a file open for writing: the text is appended.\<close>

definition write_text :: "world \<Rightarrow> path \<Rightarrow> string \<Rightarrow> world" where
  "write_text w p s =
     w\<lparr>files := map (\<lambda>(q, c). if q = p then (q, Text ((case c of Text t \<Rightarrow> t | Csv df \<Rightarrow> []) @ s))
                                else (q, c)) (files w)\<rparr>"

definition startswith :: "string \<Rightarrow> string \<Rightarrow> bool" where
  "startswith s p = (take (length p) s = p)"

definition endswith :: "string \<Rightarrow> string \<Rightarrow> bool" where
  "endswith s p = (length p \<le> length s \<and> drop (length s - length p) s = p)"

definition listdir :: "world \<Rightarrow> string \<Rightarrow> string list" where
  "listdir w d = map (\<lambda>(p, c). snd p) (filter (\<lambda>(p, c). fst p = d) (files w))"

text \<open>
  \<^verbatim>\<open>glob.glob(os.path.join(d, "*" + tail))\<close>: the entries of \<open>d\<close>, in listing order,
  whose name ends with \<open>tail\<close>; the star does not match a name that begins with a dot.
  Matching is case-sensitive.
\<close>

definition glob_star :: "world \<Rightarrow> string \<Rightarrow> string \<Rightarrow> path list" where
  "glob_star w d tail =
     map (\<lambda>n. (d, n)) (filter (\<lambda>n. \<not> startswith n ''.'' \<and> endswith n tail) (listdir w d))"

section \<open>The per-instrument normalizer\<close>

text \<open>
  The headers of the source files, as UTF-8: ri qi (date), gu piao dai ma (instrument
  code), cheng jiao liang (volume, in lots), cheng jiao e (amount), kai pan (open),
  shou pan (close), zui gao (high), zui di (low).
\<close>

definition col_riqi :: string where
  "col_riqi = [CHR 0xE6, CHR 0x97, CHR 0xA5, CHR 0xE6, CHR 0x9C, CHR 0x9F]"

definition col_gupiaodaima :: string where
  "col_gupiaodaima = [CHR 0xE8, CHR 0x82, CHR 0xA1, CHR 0xE7, CHR 0xA5, CHR 0xA8,
                      CHR 0xE4, CHR 0xBB, CHR 0xA3, CHR 0xE7, CHR 0xA0, CHR 0x81]"

definition col_chengjiaoliang :: string where
  "col_chengjiaoliang = [CHR 0xE6, CHR 0x88, CHR 0x90, CHR 0xE4, CHR 0xBA, CHR 0xA4,
                         CHR 0xE9, CHR 0x87, CHR 0x8F]"

definition col_chengjiaoe :: string where
  "col_chengjiaoe = [CHR 0xE6, CHR 0x88, CHR 0x90, CHR 0xE4, CHR 0xBA, CHR 0xA4,
                     CHR 0xE9, CHR 0xA2, CHR 0x9D]"

definition col_kaipan :: string where
  "col_kaipan = [CHR 0xE5, CHR 0xBC, CHR 0x80, CHR 0xE7, CHR 0x9B, CHR 0x98]"

definition col_shoupan :: string where
  "col_shoupan = [CHR 0xE6, CHR 0x94, CHR 0xB6, CHR 0xE7, CHR 0x9B, CHR 0x98]"

definition col_zuigao :: string where
  "col_zuigao = [CHR 0xE6, CHR 0x9C, CHR 0x80, CHR 0xE9, CHR 0xAB, CHR 0x98]"

definition col_zuidi :: string where
  "col_zuidi = [CHR 0xE6, CHR 0x9C, CHR 0x80, CHR 0xE4, CHR 0xBD, CHR 0x8E]"

text \<open>Lines 20 to 23: the exchange prefix.\<close>

definition exchange_of :: "string \<Rightarrow> string" where
  "exchange_of stock_code = (if startswith stock_code ''6'' then ''SH'' else ''SZ'')"

text \<open>Lines 26 to 33: the three files are read in this order.\<close>

definition load_sources ::
  "world \<Rightarrow> string \<Rightarrow> string \<Rightarrow> string \<Rightarrow> string \<Rightarrow> exn + dataframe \<times> dataframe \<times> dataframe" where
  "load_sources w stock_code no_adj_dir hfq_dir qfq_dir =
     (let no_adj_file = (no_adj_dir, stock_code @ ''_daily.csv'');
          hfq_file = (hfq_dir, stock_code @ ''_daily_hfq.csv'');
          qfq_file = (qfq_dir, stock_code @ ''_daily_qfq.csv'')
      in andThen (read_csv w no_adj_file) (\<lambda>no_adj_df.
         andThen (read_csv w hfq_file) (\<lambda>hfq_df.
         andThen (read_csv w qfq_file) (\<lambda>qfq_df.
         Inr (no_adj_df, hfq_df, qfq_df)))))"

text \<open>
  Line 37, for one frame. The parameter \<open>to_ymd\<close> stands for
  \<^verbatim>\<open>pd.to_datetime(...).dt.strftime('%Y-%m-%d')\<close> on one element: the date as
  \<^verbatim>\<open>YYYY-MM-DD\<close> text, NaN for a missing date, an exception for text that is no date.
\<close>

definition normalize_date :: "(cell \<Rightarrow> exn + cell) \<Rightarrow> dataframe \<Rightarrow> exn + dataframe" where
  "normalize_date to_ymd df =
     andThen (get_col df col_riqi) (\<lambda>s.
     andThen (mapM to_ymd s) (\<lambda>t.
     Inr (set_col df col_riqi t)))"

text \<open>Lines 40 to 68: the two left joins on the date and the renaming.\<close>

definition merge_sources :: "dataframe \<Rightarrow> dataframe \<Rightarrow> dataframe \<Rightarrow> exn + dataframe" where
  "merge_sources no_adj_df hfq_df qfq_df =
     andThen (select no_adj_df [col_riqi, col_gupiaodaima, col_chengjiaoliang, col_chengjiaoe])
       (\<lambda>merged_df.
     andThen (select hfq_df [col_riqi, col_kaipan, col_shoupan, col_zuigao, col_zuidi]) (\<lambda>h.
     andThen (merge_left merged_df h col_riqi ([], ''_hfq'')) (\<lambda>merged_df.
     andThen (select qfq_df [col_riqi, col_kaipan, col_shoupan, col_zuigao, col_zuidi]) (\<lambda>q.
     andThen (merge_left merged_df q col_riqi (''_hfq'', ''_qfq'')) (\<lambda>merged_df.
     Inr (rename
       [(col_kaipan @ ''_hfq'', ''open''),
        (col_shoupan @ ''_hfq'', ''close''),
        (col_zuigao @ ''_hfq'', ''high''),
        (col_zuidi @ ''_hfq'', ''low''),
        (col_kaipan @ ''_qfq'', ''open_qfq''),
        (col_shoupan @ ''_qfq'', ''close_qfq''),
        (col_zuigao @ ''_qfq'', ''high_qfq''),
        (col_zuidi @ ''_qfq'', ''low_qfq'')] merged_df))))))"

text \<open>\<^verbatim>\<open>x[name]\<close> on a row.\<close>

definition row_get :: "row \<Rightarrow> string \<Rightarrow> exn + cell" where
  "row_get x n = (case map_of x n of Some c \<Rightarrow> Inr c | None \<Rightarrow> Inl (KeyError n))"

text \<open>Line 81: \<^verbatim>\<open>lambda x: x['vwap'] if x['volume'] > 0 else np.nan\<close>\<close>

definition vwap_guard :: "row \<Rightarrow> exn + cell" where
  "vwap_guard x =
     andThen (row_get x ''volume'') (\<lambda>v.
     andThen (cell_gt0 v) (\<lambda>b.
     if b then row_get x ''vwap'' else Inr nan))"

text \<open>
  Lines 71 to 90: the derived columns. The unadjusted close (line 87) is the column of
  the frame read from the unadjusted file, assigned by index.
\<close>

definition derive_columns :: "string \<Rightarrow> dataframe \<Rightarrow> dataframe \<Rightarrow> exn + dataframe" where
  "derive_columns instrument no_adj_df merged_df =
     (let m1 = set_col_scalar merged_df ''instrument'' (Str instrument) in
      andThen (get_col m1 col_chengjiaoliang) (\<lambda>lots.
      let m2 = set_col m1 ''volume'' (map (\<lambda>c. mul_scalar c 100) lots) in
      andThen (get_col m2 col_chengjiaoe) (\<lambda>yuan.
      let m3 = set_col m2 ''amount'' yuan in
      andThen (get_col m3 ''amount'') (\<lambda>a.
      andThen (get_col m3 ''volume'') (\<lambda>v.
      andThen (series_div a v) (\<lambda>q.
      let m4 = set_col m3 ''vwap'' q in
      andThen (apply_rows vwap_guard m4) (\<lambda>g.
      let m5 = set_col m4 ''vwap'' g in
      andThen (get_col no_adj_df col_shoupan) (\<lambda>c.
      let m6 = set_col m5 ''close_no_adj'' c in
      andThen (get_col m6 ''close'') (\<lambda>x.
      andThen (get_col m6 ''close_no_adj'') (\<lambda>y.
      andThen (series_div x y) (\<lambda>f.
      Inr (set_col m6 ''factor'' f))))))))))))"

text \<open>Lines 93 to 98: the output columns, and the date header renamed.\<close>

definition project :: "dataframe \<Rightarrow> exn + dataframe" where
  "project merged_df =
     andThen (select merged_df
        [col_riqi, ''open'', ''high'', ''low'', ''close'', ''volume'', ''amount'', ''vwap'',
         ''factor'']) (\<lambda>qlib_df.
     Inr (rename [(col_riqi, ''date'')] qlib_df))"

text \<open>Lines 36 to 98, from the three frames read to the frame written.\<close>

definition build_table ::
  "(cell \<Rightarrow> exn + cell) \<Rightarrow> string \<Rightarrow> dataframe \<Rightarrow> dataframe \<Rightarrow> dataframe \<Rightarrow> exn + dataframe" where
  "build_table to_ymd stock_code no_adj_df0 hfq_df0 qfq_df0 =
     andThen (normalize_date to_ymd no_adj_df0) (\<lambda>no_adj_df.
     andThen (normalize_date to_ymd hfq_df0) (\<lambda>hfq_df.
     andThen (normalize_date to_ymd qfq_df0) (\<lambda>qfq_df.
     andThen (merge_sources no_adj_df hfq_df qfq_df) (\<lambda>merged_df.
     andThen (derive_columns (exchange_of stock_code @ stock_code) no_adj_df merged_df)
       project))))"

text \<open>
  The body of the \<^verbatim>\<open>try\<close> block (lines 19 to 107): the exception it ends with, if any,
  and the world it leaves.
\<close>

definition try_body ::
  "(cell \<Rightarrow> exn + cell) \<Rightarrow> string \<Rightarrow> string \<Rightarrow> string \<Rightarrow> string \<Rightarrow> string \<Rightarrow> world
     \<Rightarrow> (exn + unit) \<times> world" where
  "try_body to_ymd stock_code no_adj_dir hfq_dir qfq_dir output_dir w =
     (case andThen (load_sources w stock_code no_adj_dir hfq_dir qfq_dir)
             (\<lambda>(a, h, q). build_table to_ymd stock_code a h q) of
        Inl e \<Rightarrow> (Inl e, w)
      | Inr qlib_df \<Rightarrow>
          (case makedirs w output_dir of
             Inl e \<Rightarrow> (Inl e, w)
           | Inr w1 \<Rightarrow>
               (let output_file = (output_dir, exchange_of stock_code @ stock_code @ ''.csv'')
                in case to_csv w1 qlib_df output_file False of
                     Inl e \<Rightarrow> (Inl e, w1)
                   | Inr w2 \<Rightarrow> (Inr (), w2))))"

text \<open>
  \<^verbatim>\<open>process_stock_data\<close>: the \<^verbatim>\<open>try\<close> block with its handler. The result is the
  returned flag and the world, or the exception that leaves the function.
\<close>

definition process_stock_data ::
  "(cell \<Rightarrow> exn + cell) \<Rightarrow> string \<Rightarrow> string \<Rightarrow> string \<Rightarrow> string \<Rightarrow> string \<Rightarrow> world
     \<Rightarrow> exn + bool \<times> world" where
  "process_stock_data to_ymd stock_code no_adj_dir hfq_dir qfq_dir output_dir w =
     (case try_body to_ymd stock_code no_adj_dir hfq_dir qfq_dir output_dir w of
        (Inr u, w') \<Rightarrow> Inr (True, w')
      | (Inl e, w') \<Rightarrow>
          if is_Exception e then Inr (False, print w' (Failed stock_code (str_of e)))
          else Inl e)"

section \<open>The manifest and the batch driver\<close>

text \<open>\<^verbatim>\<open>open(path, 'w')\<close>: the file is created or emptied.\<close>

definition open_w :: "world \<Rightarrow> path \<Rightarrow> exn + world" where
  "open_w w p = write_file w p (Text [])"

definition generate_instruments_file :: "world \<Rightarrow> string \<Rightarrow> exn + world" where
  "generate_instruments_file w data_dir =
     (let csv_files = glob_star w data_dir ''.csv'';
          instruments = map (\<lambda>f. takeWhile (\<lambda>c. c \<noteq> CHR ''.'') (snd f)) csv_files;
          instruments_file = (data_dir, ''instruments.txt'')
      in andThen (open_w w instruments_file) (\<lambda>w1.
         let w2 = fold (\<lambda>instrument v. write_text v instruments_file (instrument @ [CHR 0x0A]))
                    instruments w1
         in Inr (print w2 (Generated instruments_file (length instruments)))))"

text \<open>Lines 127 to 130: the loop over the instruments, with its counter.\<close>

fun batch ::
  "(cell \<Rightarrow> exn + cell) \<Rightarrow> string \<Rightarrow> string \<Rightarrow> string \<Rightarrow> string \<Rightarrow> string list \<Rightarrow> nat \<Rightarrow> world
     \<Rightarrow> exn + nat \<times> world" where
  "batch to_ymd no_adj_dir hfq_dir qfq_dir output_dir [] success_count w = Inr (success_count, w)"
| "batch to_ymd no_adj_dir hfq_dir qfq_dir output_dir (stock_code # rest) success_count w =
     (case process_stock_data to_ymd stock_code no_adj_dir hfq_dir qfq_dir output_dir w of
        Inl e \<Rightarrow> Inl e
      | Inr (ok, w') \<Rightarrow>
          batch to_ymd no_adj_dir hfq_dir qfq_dir output_dir rest
            (if ok then success_count + 1 else success_count) w')"

text \<open>\<^verbatim>\<open>main\<close>, with its four directories as parameters.\<close>

definition main_in ::
  "(cell \<Rightarrow> exn + cell) \<Rightarrow> string \<Rightarrow> string \<Rightarrow> string \<Rightarrow> string \<Rightarrow> world \<Rightarrow> exn + world" where
  "main_in to_ymd no_adj_dir hfq_dir qfq_dir output_dir w =
     (let no_adj_files = glob_star w no_adj_dir ''_daily.csv'';
          stock_codes = map (\<lambda>f. takeWhile (\<lambda>c. c \<noteq> CHR ''_'') (snd f)) no_adj_files;
          w1 = print w (Found (length stock_codes))
      in andThen (batch to_ymd no_adj_dir hfq_dir qfq_dir output_dir stock_codes 0 w1)
           (\<lambda>(success_count, w2).
         generate_instruments_file
           (print w2 (Summary success_count (length stock_codes))) output_dir))"

definition main :: "(cell \<Rightarrow> exn + cell) \<Rightarrow> world \<Rightarrow> exn + world" where
  "main to_ymd w =
     main_in to_ymd
       (''D:'' @ [CHR 0x5C] @ ''BaiduNetdiskDownload'' @ [CHR 0x5C] @ ''daily'')
       (''D:'' @ [CHR 0x5C] @ ''BaiduNetdiskDownload'' @ [CHR 0x5C] @ ''daily_hfq'')
       (''D:'' @ [CHR 0x5C] @ ''BaiduNetdiskDownload'' @ [CHR 0x5C] @ ''daily_qfq'')
       (''D:'' @ [CHR 0x5C] @ ''data'') w"

section \<open>Notions used in the statements\<close>

definition val :: "exn + cell \<Rightarrow> cell" where
  "val m = (case m of Inr c \<Rightarrow> c | Inl e \<Rightarrow> nan)"

definition joined :: "dataframe \<Rightarrow> dataframe \<Rightarrow> dataframe \<Rightarrow> (row \<times> row option \<times> row option) list" where
  "joined a h q =
     concat (map (\<lambda>ra.
       concat (map (\<lambda>ph. map (\<lambda>pq. (ra, ph, pq)) (partners (rows q) col_riqi (cell_of ra col_riqi)))
         (partners (rows h) col_riqi (cell_of ra col_riqi)))) (rows a))"

definition all_names :: "string list" where
  "all_names =
     [col_riqi, col_gupiaodaima, col_chengjiaoliang, col_chengjiaoe,
      col_kaipan, col_shoupan, col_zuigao, col_zuidi,
      col_kaipan @ ''_hfq'', col_shoupan @ ''_hfq'', col_zuigao @ ''_hfq'', col_zuidi @ ''_hfq'',
      col_kaipan @ ''_qfq'', col_shoupan @ ''_qfq'', col_zuigao @ ''_qfq'', col_zuidi @ ''_qfq'',
      ''open'', ''close'', ''high'', ''low'', ''open_qfq'', ''close_qfq'', ''high_qfq'', ''low_qfq'',
      ''instrument'', ''volume'', ''amount'', ''vwap'', ''close_no_adj'', ''factor'', ''date'']"

definition mrow :: "row \<times> row option \<times> row option \<Rightarrow> row" where
  "mrow t = (case t of (r, p, p') \<Rightarrow>
         [(col_riqi, cell_of r col_riqi), (col_gupiaodaima, cell_of r col_gupiaodaima),
          (col_chengjiaoliang, cell_of r col_chengjiaoliang), (col_chengjiaoe, cell_of r col_chengjiaoe),
          (''open'', part_cell p col_kaipan), (''close'', part_cell p col_shoupan),
          (''high'', part_cell p col_zuigao), (''low'', part_cell p col_zuidi),
          (''open_qfq'', part_cell p' col_kaipan), (''close_qfq'', part_cell p' col_shoupan),
          (''high_qfq'', part_cell p' col_zuigao), (''low_qfq'', part_cell p' col_zuidi)])"

definition guarded :: "cell \<Rightarrow> cell \<Rightarrow> cell" where
  "guarded v q = (if cell_gt0 v = Inr True then q else nan)"

definition orow :: "(row \<times> row option \<times> row option) \<times> cell \<Rightarrow> row" where
  "orow z =
     [(''date'', cell_of (fst (fst z)) col_riqi),
      (''open'', part_cell (fst (snd (fst z))) col_kaipan),
      (''high'', part_cell (fst (snd (fst z))) col_zuigao),
      (''low'', part_cell (fst (snd (fst z))) col_zuidi),
      (''close'', part_cell (fst (snd (fst z))) col_shoupan),
      (''volume'', mul_scalar (cell_of (fst (fst z)) col_chengjiaoliang) 100),
      (''amount'', cell_of (fst (fst z)) col_chengjiaoe),
      (''vwap'', guarded (mul_scalar (cell_of (fst (fst z)) col_chengjiaoliang) 100)
                   (val (cell_div (cell_of (fst (fst z)) col_chengjiaoe)
                      (mul_scalar (cell_of (fst (fst z)) col_chengjiaoliang) 100)))),
      (''factor'', val (cell_div (part_cell (fst (snd (fst z))) col_shoupan) (snd z)))]"

definition guard_of :: "exn + cell \<Rightarrow> exn + cell \<Rightarrow> exn + cell" where
  "guard_of mv mq = andThen mv (\<lambda>v. andThen (cell_gt0 v) (\<lambda>b. if b then mq else Inr nan))"

definition norm :: "(cell \<Rightarrow> exn + cell) \<Rightarrow> dataframe \<Rightarrow> dataframe" where
  "norm f df =
     \<lparr>columns = columns df,
      rows = map (\<lambda>r. set_cell r col_riqi (val (f (cell_of r col_riqi)))) (rows df)\<rparr>"

definition out_rows :: "dataframe \<Rightarrow> dataframe \<Rightarrow> dataframe \<Rightarrow> row list" where
  "out_rows a h q =
     map orow (zip (joined a h q)
       (align (length (joined a h q)) (map (\<lambda>r. cell_of r col_shoupan) (rows a))))"

definition table_ok ::
  "(cell \<Rightarrow> exn + cell) \<Rightarrow> dataframe \<Rightarrow> dataframe \<Rightarrow> dataframe \<Rightarrow> bool" where
  "table_ok f a0 h0 q0 \<longleftrightarrow>
     {col_riqi, col_gupiaodaima, col_chengjiaoliang, col_chengjiaoe, col_shoupan} \<subseteq> set (columns a0) \<and>
     {col_riqi, col_kaipan, col_shoupan, col_zuigao, col_zuidi} \<subseteq> set (columns h0) \<and>
     {col_riqi, col_kaipan, col_shoupan, col_zuigao, col_zuidi} \<subseteq> set (columns q0) \<and>
     (\<forall>r \<in> set (rows a0). \<exists>d. f (cell_of r col_riqi) = Inr d) \<and>
     (\<forall>r \<in> set (rows h0). \<exists>d. f (cell_of r col_riqi) = Inr d) \<and>
     (\<forall>r \<in> set (rows q0). \<exists>d. f (cell_of r col_riqi) = Inr d) \<and>
     (\<forall>t \<in> set (joined (norm f a0) (norm f h0) (norm f q0)).
        \<exists>c. cell_div (cell_of (fst t) col_chengjiaoe)
              (mul_scalar (cell_of (fst t) col_chengjiaoliang) 100) = Inr c) \<and>
     (\<forall>t \<in> set (joined (norm f a0) (norm f h0) (norm f q0)).
        \<exists>b. cell_gt0 (mul_scalar (cell_of (fst t) col_chengjiaoliang) 100) = Inr b) \<and>
     (\<forall>z \<in> set (zip (joined (norm f a0) (norm f h0) (norm f q0))
            (align (length (joined (norm f a0) (norm f h0) (norm f q0)))
               (map (\<lambda>r. cell_of r col_shoupan) (rows (norm f a0))))).
        \<exists>c. cell_div (part_cell (fst (snd (fst z))) col_shoupan) (snd z) = Inr c)"

section \<open>Sample inputs\<close>

text \<open>
  The examples use a date normalizer that accepts text of the form \<^verbatim>\<open>dddd-dd-dd\<close> and
  leaves it as it is, maps a missing date to NaN and rejects everything else.
\<close>

definition is_digit :: "char \<Rightarrow> bool" where
  "is_digit c = (c \<in> set ''0123456789'')"

definition ymd :: "cell \<Rightarrow> exn + cell" where
  "ymd c =
     (case c of
        Str s \<Rightarrow>
          (if length s = 10 \<and> s ! 4 = CHR ''-'' \<and> s ! 7 = CHR ''-'' \<and>
              list_all is_digit (take 4 s @ take 2 (drop 5 s) @ drop 8 s)
           then Inr (Str s) else Inl (ValueError s))
      | I64 v \<Rightarrow> Inl (ValueError ''not a date'')
      | F64 x \<Rightarrow> (if x = NaN then Inr nan else Inl (ValueError ''not a date'')))"

definition unadjusted :: "(string \<times> cell \<times> cell \<times> cell) list \<Rightarrow> dataframe" where
  "unadjusted xs =
     \<lparr>columns = [col_riqi, col_gupiaodaima, col_shoupan, col_chengjiaoliang, col_chengjiaoe],
      rows = map (\<lambda>(d, c, v, a).
        [(col_riqi, Str d), (col_gupiaodaima, I64 1), (col_shoupan, c),
         (col_chengjiaoliang, v), (col_chengjiaoe, a)]) xs\<rparr>"

definition adjusted :: "(string \<times> rat \<times> rat \<times> rat \<times> rat) list \<Rightarrow> dataframe" where
  "adjusted xs =
     \<lparr>columns = [col_riqi, col_kaipan, col_shoupan, col_zuigao, col_zuidi],
      rows = map (\<lambda>(d, op, cl, hi, lo).
        [(col_riqi, Str d), (col_kaipan, F64 (Fin op)), (col_shoupan, F64 (Fin cl)),
         (col_zuigao, F64 (Fin hi)), (col_zuidi, F64 (Fin lo))]) xs\<rparr>"

definition sample_unadjusted :: dataframe where
  "sample_unadjusted = unadjusted
     [(''2024-01-02'', F64 (Fin 10), I64 100, F64 (Fin 5000)),
      (''2024-01-03'', F64 (Fin 20), I64 0, F64 (Fin 0)),
      (''2024-01-04'', F64 (Fin 25), I64 (- 5), F64 (Fin 300))]"

definition sample_hfq :: dataframe where
  "sample_hfq = adjusted [(''2024-01-02'', 11, 12, 13, 9), (''2024-01-03'', 21, 22, 23, 19)]"

definition sample_qfq :: dataframe where
  "sample_qfq = adjusted [(''2024-01-02'', 1, 2, 3, 1)]"

definition sample_world :: world where
  "sample_world =
     \<lparr>dirs = [''a'', ''h'', ''q''],
      files =
        [((''a'', ''600001_daily.csv''), Csv sample_unadjusted),
         ((''a'', ''000001_daily.csv''), Csv sample_unadjusted),
         ((''a'', ''000002_daily.csv''), Csv sample_unadjusted),
         ((''h'', ''600001_daily_hfq.csv''), Csv sample_hfq),
         ((''h'', ''000002_daily_hfq.csv''), Csv sample_hfq),
         ((''q'', ''600001_daily_qfq.csv''), Csv sample_qfq),
         ((''q'', ''000001_daily_qfq.csv''), Csv sample_qfq),
         ((''q'', ''000002_daily_qfq.csv''), Csv sample_qfq)],
      denied = [],
      console = []\<rparr>"

definition sample_out :: dataframe where
  "sample_out =
     \<lparr>columns = [''date'', ''open'', ''high'', ''low'', ''close'', ''volume'', ''amount'', ''vwap'', ''factor''],
      rows =
        [[(''date'', Str ''2024-01-02''), (''open'', F64 (Fin 11)), (''high'', F64 (Fin 13)),
          (''low'', F64 (Fin 9)), (''close'', F64 (Fin 12)), (''volume'', I64 10000),
          (''amount'', F64 (Fin 5000)), (''vwap'', F64 (Fin (1 / 2))), (''factor'', F64 (Fin (6 / 5)))],
         [(''date'', Str ''2024-01-03''), (''open'', F64 (Fin 21)), (''high'', F64 (Fin 23)),
          (''low'', F64 (Fin 19)), (''close'', F64 (Fin 22)), (''volume'', I64 0),
          (''amount'', F64 (Fin 0)), (''vwap'', F64 NaN), (''factor'', F64 (Fin (11 / 10)))],
         [(''date'', Str ''2024-01-04''), (''open'', F64 NaN), (''high'', F64 NaN),
          (''low'', F64 NaN), (''close'', F64 NaN), (''volume'', I64 (- 500)),
          (''amount'', F64 (Fin 300)), (''vwap'', F64 NaN), (''factor'', F64 NaN)]]\<rparr>"

definition sample_after :: world where
  "sample_after =
     sample_world\<lparr>dirs := [''a'', ''h'', ''q'', ''o''],
       files := files sample_world @ [((''o'', ''SH600001.csv''), Csv sample_out)]\<rparr>"

definition big_unadjusted :: dataframe where
  "big_unadjusted = unadjusted
     [(''2024-01-02'', F64 (Fin 10), I64 100000000000000000, F64 (Fin 5000))]"

definition big_out :: dataframe where
  "big_out =
     \<lparr>columns = [''date'', ''open'', ''high'', ''low'', ''close'', ''volume'', ''amount'', ''vwap'', ''factor''],
      rows =
        [[(''date'', Str ''2024-01-02''), (''open'', F64 (Fin 11)), (''high'', F64 (Fin 13)),
          (''low'', F64 (Fin 9)), (''close'', F64 (Fin 12)), (''volume'', I64 (- 8446744073709551616)),
          (''amount'', F64 (Fin 5000)), (''vwap'', F64 NaN), (''factor'', F64 (Fin (6 / 5)))]]\<rparr>"

definition big_world :: world where
  "big_world =
     \<lparr>dirs = [''a'', ''h'', ''q'', ''o''],
      files =
        [((''a'', ''600001_daily.csv''), Csv big_unadjusted),
         ((''h'', ''600001_daily_hfq.csv''), Csv sample_hfq),
         ((''q'', ''600001_daily_qfq.csv''), Csv sample_qfq)],
      denied = [],
      console = []\<rparr>"

definition big_after :: world where
  "big_after = big_world\<lparr>files := files big_world @ [((''o'', ''SH600001.csv''), Csv big_out)]\<rparr>"

definition dup_unadjusted :: dataframe where
  "dup_unadjusted = unadjusted
     [(''2024-01-02'', F64 (Fin 10), I64 100, F64 (Fin 5000)),
      (''2024-01-03'', F64 (Fin 20), I64 200, F64 (Fin 8000))]"

definition dup_hfq :: dataframe where
  "dup_hfq = adjusted
     [(''2024-01-02'', 11, 12, 13, 9), (''2024-01-02'', 21, 22, 23, 19),
      (''2024-01-03'', 31, 32, 33, 29)]"

definition dup_out :: dataframe where
  "dup_out =
     \<lparr>columns = [''date'', ''open'', ''high'', ''low'', ''close'', ''volume'', ''amount'', ''vwap'', ''factor''],
      rows =
        [[(''date'', Str ''2024-01-02''), (''open'', F64 (Fin 11)), (''high'', F64 (Fin 13)),
          (''low'', F64 (Fin 9)), (''close'', F64 (Fin 12)), (''volume'', I64 10000),
          (''amount'', F64 (Fin 5000)), (''vwap'', F64 (Fin (1 / 2))), (''factor'', F64 (Fin (6 / 5)))],
         [(''date'', Str ''2024-01-02''), (''open'', F64 (Fin 21)), (''high'', F64 (Fin 23)),
          (''low'', F64 (Fin 19)), (''close'', F64 (Fin 22)), (''volume'', I64 10000),
          (''amount'', F64 (Fin 5000)), (''vwap'', F64 (Fin (1 / 2))), (''factor'', F64 (Fin (11 / 10)))],
         [(''date'', Str ''2024-01-03''), (''open'', F64 (Fin 31)), (''high'', F64 (Fin 33)),
          (''low'', F64 (Fin 29)), (''close'', F64 (Fin 32)), (''volume'', I64 20000),
          (''amount'', F64 (Fin 8000)), (''vwap'', F64 (Fin (2 / 5))), (''factor'', F64 NaN)]]\<rparr>"

definition dup_world :: world where
  "dup_world =
     \<lparr>dirs = [''a'', ''h'', ''q'', ''o''],
      files =
        [((''a'', ''000001_daily.csv''), Csv dup_unadjusted),
         ((''h'', ''000001_daily_hfq.csv''), Csv dup_hfq),
         ((''q'', ''000001_daily_qfq.csv''), Csv sample_qfq)],
      denied = [],
      console = []\<rparr>"

definition dup_after :: world where
  "dup_after = dup_world\<lparr>files := files dup_world @ [((''o'', ''SZ000001.csv''), Csv dup_out)]\<rparr>"

section \<open>Properties of the frame operations\<close>

lemma andThen_Inr: "andThen m f = Inr y \<longleftrightarrow> (\<exists>x. m = Inr x \<and> f x = Inr y)"
  by (cases m) (simp_all add: andThen_def)

lemma andThen_Inl: "andThen m f = Inl e \<longleftrightarrow> m = Inl e \<or> (\<exists>x. m = Inr x \<and> f x = Inl e)"
  by (cases m) (simp_all add: andThen_def)

lemma mapM_Inr_map:
  assumes "mapM f xs = Inr ys"
  shows "ys = map (\<lambda>x. val (f x)) xs" and "\<forall>x \<in> set xs. \<exists>y. f x = Inr y"
  using assms
  by (induction xs arbitrary: ys) (auto simp: val_def split: sum.splits)

lemma mapM_zip_map: "mapM h (zip (map f xs) (map g xs)) = mapM (\<lambda>x. h (f x, g x)) xs"
  by (induction xs) (auto split: sum.splits)

lemma map_of_replace:
  "map_of (map (\<lambda>(m, c). if m = n then (m, v) else (m, c)) r) k =
     (if k = n then (if n \<in> fst ` set r then Some v else None) else map_of r k)"
proof (induction r)
  case Nil
  then show ?case by simp
next
  case (Cons p r)
  obtain m c where p: "p = (m, c)" by (cases p)
  show ?case using Cons by (auto simp: p) force+
qed

lemma map_of_append_one:
  "map_of (r @ [(n, v)]) k = (case map_of r k of Some c \<Rightarrow> Some c | None \<Rightarrow> if k = n then Some v else None)"
  by (induction r) auto

lemma cell_of_set_cell: "cell_of (set_cell r n v) m = (if m = n then v else cell_of r m)"
proof (cases "n \<in> fst ` set r")
  case True
  then show ?thesis
    by (simp add: cell_of_def set_cell_def map_of_replace)
next
  case False
  then have "map_of r n = None"
    by (simp add: map_of_eq_None_iff)
  with False show ?thesis
    by (auto simp: cell_of_def set_cell_def map_of_append_one split: option.splits)
qed

lemma align_same: "length vs = k \<Longrightarrow> align k vs = vs"
  by (simp add: align_def)

lemma rows_set_col_map:
  "rows (set_col df n (map f (rows df))) = map (\<lambda>r. set_cell r n (f r)) (rows df)"
  by (simp add: set_col_def align_same zip_map2 zip_same_conv_map)

lemma get_col_Inr: "get_col df n = Inr vs \<longleftrightarrow> n \<in> set (columns df) \<and> vs = map (\<lambda>r. cell_of r n) (rows df)"
  by (auto simp: get_col_def)

lemma select_Inr:
  "select df ns = Inr d \<longleftrightarrow>
     set ns \<subseteq> set (columns df) \<and>
     d = \<lparr>columns = ns, rows = map (\<lambda>r. map (\<lambda>n. (n, cell_of r n)) ns) (rows df)\<rparr>"
proof (cases "filter (\<lambda>n. n \<notin> set (columns df)) ns")
  case Nil
  then have "set ns \<subseteq> set (columns df)"
    by (auto simp: filter_empty_conv)
  with Nil show ?thesis
    by (auto simp: select_def)
next
  case (Cons n rest)
  then have "n \<in> set (filter (\<lambda>n. n \<notin> set (columns df)) ns)"
    by simp
  then have "\<not> set ns \<subseteq> set (columns df)"
    by auto
  with Cons show ?thesis
    by (simp add: select_def)
qed

lemmas col_defs = col_riqi_def col_gupiaodaima_def col_chengjiaoliang_def col_chengjiaoe_def
  col_kaipan_def col_shoupan_def col_zuigao_def col_zuidi_def

lemma names_distinct: "distinct all_names"
  unfolding all_names_def col_defs by simp

lemma names_distinct_rev: "distinct (rev all_names)"
  using names_distinct by simp

lemma name_neqs_raw: "distinct all_names \<and> distinct (rev all_names)"
  using names_distinct by simp

lemmas name_neqs = name_neqs_raw[unfolded all_names_def, simplified]

lemma cell_of_Nil: "cell_of [] n = nan"
  by (simp add: cell_of_def)

lemma cell_of_Cons: "cell_of ((m, c) # r) n = (if m = n then c else cell_of r n)"
  by (simp add: cell_of_def)

lemma partners_map:
  assumes "\<And>b. cell_of (f b) key = cell_of b key"
  shows "partners (map f rs) key k = map (map_option f) (partners rs key k)"
proof -
  have "filter (\<lambda>b. cell_of b key = k) (map f rs) = map f (filter (\<lambda>b. cell_of b key = k) rs)"
    by (simp add: filter_map o_def assms)
  then show ?thesis
    by (simp add: partners_def split: list.splits)
qed

lemma part_cell_simps: "part_cell None n = nan" "part_cell (Some b) n = cell_of b n"
  by (simp_all add: part_cell_def)

lemma part_cell_map_option:
  assumes "\<And>b. cell_of (f b) n = cell_of b n"
  shows "part_cell (map_option f p) n = part_cell p n"
  by (cases p) (simp_all add: part_cell_def assms)

lemma merge_left_hfq:
 "merge_left \<lparr>columns = [col_riqi, col_gupiaodaima, col_chengjiaoliang, col_chengjiaoe],
     rows = map (\<lambda>r. [(col_riqi, cell_of r col_riqi), (col_gupiaodaima, cell_of r col_gupiaodaima),
          (col_chengjiaoliang, cell_of r col_chengjiaoliang), (col_chengjiaoe, cell_of r col_chengjiaoe)]) ra\<rparr>
   \<lparr>columns = [col_riqi, col_kaipan, col_shoupan, col_zuigao, col_zuidi],
     rows = map (\<lambda>r. [(col_riqi, cell_of r col_riqi), (col_kaipan, cell_of r col_kaipan),
          (col_shoupan, cell_of r col_shoupan), (col_zuigao, cell_of r col_zuigao),
          (col_zuidi, cell_of r col_zuidi)]) rh\<rparr>
   col_riqi ([], ''_hfq'')
  = Inr \<lparr>columns = [col_riqi, col_gupiaodaima, col_chengjiaoliang, col_chengjiaoe, col_kaipan, col_shoupan, col_zuigao, col_zuidi],
      rows = concat (map (\<lambda>r. map (\<lambda>p.
         [(col_riqi, cell_of r col_riqi), (col_gupiaodaima, cell_of r col_gupiaodaima),
          (col_chengjiaoliang, cell_of r col_chengjiaoliang), (col_chengjiaoe, cell_of r col_chengjiaoe),
          (col_kaipan, part_cell p col_kaipan), (col_shoupan, part_cell p col_shoupan),
          (col_zuigao, part_cell p col_zuigao), (col_zuidi, part_cell p col_zuidi)])
        (partners rh col_riqi (cell_of r col_riqi))) ra)\<rparr>"
  (is "merge_left _ \<lparr>columns = _, rows = map ?sel rh\<rparr> _ _ = _")
proof -
  have pm: "partners (map ?sel rh) col_riqi k = map (map_option ?sel) (partners rh col_riqi k)" for k
    by (rule partners_map) (simp add: cell_of_Cons)
  have pc: "part_cell (map_option ?sel p) n = part_cell p n"
    if "n \<in> {col_kaipan, col_shoupan, col_zuigao, col_zuidi}" for p n
    using that by (intro part_cell_map_option) (auto simp: cell_of_Cons name_neqs)
  show ?thesis
    unfolding merge_left_def Let_def
    by (simp add: pm pc cell_of_Cons o_def name_neqs)
qed

lemma concat_map_concat_map:
  "concat (map F (concat (map G xs))) = concat (map (\<lambda>x. concat (map F (G x))) xs)"
  by (induction xs) simp_all

lemma merge_left_qfq:
 "merge_left
   \<lparr>columns = [col_riqi, col_gupiaodaima, col_chengjiaoliang, col_chengjiaoe, col_kaipan, col_shoupan, col_zuigao, col_zuidi],
    rows = concat (map (\<lambda>r. map (\<lambda>p.
         [(col_riqi, cell_of r col_riqi), (col_gupiaodaima, cell_of r col_gupiaodaima),
          (col_chengjiaoliang, cell_of r col_chengjiaoliang), (col_chengjiaoe, cell_of r col_chengjiaoe),
          (col_kaipan, part_cell p col_kaipan), (col_shoupan, part_cell p col_shoupan),
          (col_zuigao, part_cell p col_zuigao), (col_zuidi, part_cell p col_zuidi)])
        (partners rh col_riqi (cell_of r col_riqi))) ra)\<rparr>
   \<lparr>columns = [col_riqi, col_kaipan, col_shoupan, col_zuigao, col_zuidi],
     rows = map (\<lambda>r. [(col_riqi, cell_of r col_riqi), (col_kaipan, cell_of r col_kaipan),
          (col_shoupan, cell_of r col_shoupan), (col_zuigao, cell_of r col_zuigao),
          (col_zuidi, cell_of r col_zuidi)]) rq\<rparr>
   col_riqi (''_hfq'', ''_qfq'')
  = Inr \<lparr>columns = [col_riqi, col_gupiaodaima, col_chengjiaoliang, col_chengjiaoe,
         col_kaipan @ ''_hfq'', col_shoupan @ ''_hfq'', col_zuigao @ ''_hfq'', col_zuidi @ ''_hfq'',
         col_kaipan @ ''_qfq'', col_shoupan @ ''_qfq'', col_zuigao @ ''_qfq'', col_zuidi @ ''_qfq''],
      rows = concat (map (\<lambda>r. concat (map (\<lambda>p. map (\<lambda>p'.
         [(col_riqi, cell_of r col_riqi), (col_gupiaodaima, cell_of r col_gupiaodaima),
          (col_chengjiaoliang, cell_of r col_chengjiaoliang), (col_chengjiaoe, cell_of r col_chengjiaoe),
          (col_kaipan @ ''_hfq'', part_cell p col_kaipan), (col_shoupan @ ''_hfq'', part_cell p col_shoupan),
          (col_zuigao @ ''_hfq'', part_cell p col_zuigao), (col_zuidi @ ''_hfq'', part_cell p col_zuidi),
          (col_kaipan @ ''_qfq'', part_cell p' col_kaipan), (col_shoupan @ ''_qfq'', part_cell p' col_shoupan),
          (col_zuigao @ ''_qfq'', part_cell p' col_zuigao), (col_zuidi @ ''_qfq'', part_cell p' col_zuidi)])
        (partners rq col_riqi (cell_of r col_riqi)))
        (partners rh col_riqi (cell_of r col_riqi)))) ra)\<rparr>"
  (is "merge_left _ \<lparr>columns = _, rows = map ?sel rq\<rparr> _ _ = _")
proof -
  have pm: "partners (map ?sel rq) col_riqi k = map (map_option ?sel) (partners rq col_riqi k)" for k
    by (rule partners_map) (simp add: cell_of_Cons)
  have pc: "part_cell (map_option ?sel p) n = part_cell p n"
    if "n \<in> {col_kaipan, col_shoupan, col_zuigao, col_zuidi}" for p n
    using that by (intro part_cell_map_option) (auto simp: cell_of_Cons name_neqs)
  show ?thesis
    unfolding merge_left_def Let_def
    by (simp add: pm pc cell_of_Cons o_def name_neqs concat_map_concat_map)
qed

lemma mrow_alt: "mrow t =
         [(col_riqi, cell_of (fst t) col_riqi), (col_gupiaodaima, cell_of (fst t) col_gupiaodaima),
          (col_chengjiaoliang, cell_of (fst t) col_chengjiaoliang), (col_chengjiaoe, cell_of (fst t) col_chengjiaoe),
          (''open'', part_cell (fst (snd t)) col_kaipan), (''close'', part_cell (fst (snd t)) col_shoupan),
          (''high'', part_cell (fst (snd t)) col_zuigao), (''low'', part_cell (fst (snd t)) col_zuidi),
          (''open_qfq'', part_cell (snd (snd t)) col_kaipan), (''close_qfq'', part_cell (snd (snd t)) col_shoupan),
          (''high_qfq'', part_cell (snd (snd t)) col_zuigao), (''low_qfq'', part_cell (snd (snd t)) col_zuidi)]"
  by (cases t) (simp add: mrow_def)

lemma get_col_rec:
  "get_col \<lparr>columns = cs, rows = map F Z\<rparr> n =
     (if n \<in> set cs then Inr (map (\<lambda>z. cell_of (F z) n) Z) else Inl (KeyError n))"
  by (simp add: get_col_def o_def)

lemma set_col_rec:
  "set_col \<lparr>columns = cs, rows = map F Z\<rparr> n (map g Z) =
     \<lparr>columns = (if n \<in> set cs then cs else cs @ [n]),
      rows = map (\<lambda>z. set_cell (F z) n (g z)) Z\<rparr>"
  by (simp add: set_col_def align_same zip_map_map zip_same_conv_map)

lemma set_col_scalar_rec:
  "set_col_scalar \<lparr>columns = cs, rows = map F Z\<rparr> n v =
     \<lparr>columns = (if n \<in> set cs then cs else cs @ [n]),
      rows = map (\<lambda>z. set_cell (F z) n v) Z\<rparr>"
proof -
  have "replicate (length Z) v = map (\<lambda>z. v) Z"
    by (simp add: map_replicate_const)
  then show ?thesis
    unfolding set_col_scalar_def by (simp add: set_col_rec)
qed

lemma set_col_zip:
  "set_col \<lparr>columns = cs, rows = map F T\<rparr> n c =
     \<lparr>columns = (if n \<in> set cs then cs else cs @ [n]),
      rows = map (\<lambda>z. set_cell (F (fst z)) n (snd z)) (zip T (align (length T) c))\<rparr>"
  by (simp add: set_col_def zip_map1 case_prod_beta)

lemma series_div_map:
  "series_div (map f Z) (map g Z) = mapM (\<lambda>z. cell_div (f z) (g z)) Z"
  by (simp add: series_div_def mapM_zip_map)

lemma apply_rows_rec:
  "apply_rows k \<lparr>columns = cs, rows = map F Z\<rparr> = mapM (\<lambda>z. k (F z)) Z"
proof -
  have "mapM k (map F Z) = mapM (\<lambda>z. k (F z)) Z"
    by (induction Z) (auto split: sum.splits)
  then show ?thesis by (simp add: apply_rows_def)
qed

lemma andThen_mapM_Inr:
  "andThen (mapM k Z) f = Inr y \<longleftrightarrow>
     (\<forall>z \<in> set Z. \<exists>c. k z = Inr c) \<and> f (map (\<lambda>z. val (k z)) Z) = Inr y"
proof (cases "mapM k Z")
  case (Inl e)
  have "\<not> (\<forall>z \<in> set Z. \<exists>c. k z = Inr c)"
    using Inl by (induction Z) (auto split: sum.splits)
  with Inl show ?thesis by (simp add: andThen_def)
next
  case (Inr ys)
  from mapM_Inr_map[OF Inr] Inr show ?thesis by (simp add: andThen_def)
qed

lemma andThen_simps: "andThen (Inr x) f = f x" "andThen (Inl e) f = Inl e"
  by (simp_all add: andThen_def)

lemma andThen_if_Inr:
  "andThen (if c then Inr x else Inl e) f = Inr y \<longleftrightarrow> c \<and> f x = Inr y"
  by (simp add: andThen_def)

lemma set_cell_Nil: "set_cell [] n v = [(n, v)]"
  by (simp add: set_cell_def)

lemma set_cell_Cons_neq: "m \<noteq> n \<Longrightarrow> set_cell ((m, c) # r) n v = (m, c) # set_cell r n v"
  by (auto simp: set_cell_def)

lemma set_cell_Cons_eq: "n \<notin> fst ` set r \<Longrightarrow> set_cell ((n, c) # r) n v = (n, v) # r"
proof -
  assume a: "n \<notin> fst ` set r"
  then have "map (\<lambda>(m, c). if m = n then (m, v) else (m, c)) r = r"
    by (induction r) auto
  then show ?thesis by (simp add: set_cell_def)
qed

lemma row_get_Nil: "row_get [] n = Inl (KeyError n)"
  by (simp add: row_get_def)

lemma row_get_Cons: "row_get ((m, c) # r) n = (if m = n then Inr c else row_get r n)"
  by (simp add: row_get_def)

lemma vwap_guard_alt: "vwap_guard x = guard_of (row_get x ''volume'') (row_get x ''vwap'')"
  by (simp add: vwap_guard_def guard_of_def)

lemma val_guard_of: "val (guard_of (Inr v) (Inr q)) = guarded v q"
  by (cases "cell_gt0 v") (auto simp: guard_of_def andThen_def val_def guarded_def)

lemma ex_guard_of: "(\<exists>c. guard_of (Inr v) (Inr q) = Inr c) \<longleftrightarrow> (\<exists>b. cell_gt0 v = Inr b)"
  by (cases "cell_gt0 v") (auto simp: guard_of_def andThen_def)

lemma andThen_assoc: "andThen (andThen m f) g = andThen m (\<lambda>x. andThen (f x) g)"
  by (cases m) (simp_all add: andThen_def)

lemma andThen_select_Inr:
  "andThen (select df ns) f = Inr y \<longleftrightarrow>
     set ns \<subseteq> set (columns df) \<and>
     f \<lparr>columns = ns, rows = map (\<lambda>r. map (\<lambda>n. (n, cell_of r n)) ns) (rows df)\<rparr> = Inr y"
  by (auto simp: andThen_Inr select_Inr)

lemma mapM_map: "mapM k (map g xs) = mapM (\<lambda>x. k (g x)) xs"
  by (induction xs) (auto split: sum.splits)

lemma normalize_date_iff:
  "normalize_date f df = Inr df' \<longleftrightarrow>
     col_riqi \<in> set (columns df) \<and>
     (\<forall>r \<in> set (rows df). \<exists>d. f (cell_of r col_riqi) = Inr d) \<and>
     df' = norm f df"
proof -
  have s: "set_col df col_riqi (map (\<lambda>r. val (f (cell_of r col_riqi))) (rows df)) = norm f df"
    if "col_riqi \<in> set (columns df)"
    unfolding norm_def using that
    by (simp add: set_col_def align_same zip_map2 zip_same_conv_map)
  show ?thesis
    unfolding normalize_date_def get_col_def
    by (auto simp: andThen_if_Inr mapM_map andThen_mapM_Inr s)
qed

lemma merge_sources_iff:
  "merge_sources a h q = Inr m \<longleftrightarrow>
     {col_riqi, col_gupiaodaima, col_chengjiaoliang, col_chengjiaoe} \<subseteq> set (columns a) \<and>
     {col_riqi, col_kaipan, col_shoupan, col_zuigao, col_zuidi} \<subseteq> set (columns h) \<and>
     {col_riqi, col_kaipan, col_shoupan, col_zuigao, col_zuidi} \<subseteq> set (columns q) \<and>
     m = \<lparr>columns = [col_riqi, col_gupiaodaima, col_chengjiaoliang, col_chengjiaoe,
                ''open'', ''close'', ''high'', ''low'', ''open_qfq'', ''close_qfq'', ''high_qfq'', ''low_qfq''],
              rows = map mrow (joined a h q)\<rparr>"
  unfolding merge_sources_def
  by (auto simp: andThen_select_Inr merge_left_hfq merge_left_qfq andThen_simps rename_def
      rename_one_def name_neqs map_concat o_def mrow_def joined_def)

lemma orow_fun: "orow = (\<lambda>z.
     [(''date'', cell_of (fst (fst z)) col_riqi),
      (''open'', part_cell (fst (snd (fst z))) col_kaipan),
      (''high'', part_cell (fst (snd (fst z))) col_zuigao),
      (''low'', part_cell (fst (snd (fst z))) col_zuidi),
      (''close'', part_cell (fst (snd (fst z))) col_shoupan),
      (''volume'', mul_scalar (cell_of (fst (fst z)) col_chengjiaoliang) 100),
      (''amount'', cell_of (fst (fst z)) col_chengjiaoe),
      (''vwap'', guarded (mul_scalar (cell_of (fst (fst z)) col_chengjiaoliang) 100)
                   (val (cell_div (cell_of (fst (fst z)) col_chengjiaoe)
                      (mul_scalar (cell_of (fst (fst z)) col_chengjiaoliang) 100)))),
      (''factor'', val (cell_div (part_cell (fst (snd (fst z))) col_shoupan) (snd z)))])"
  by (rule ext) (simp add: orow_def)

lemma derive_project_iff:
  "andThen (derive_columns inst a
     \<lparr>columns = [col_riqi, col_gupiaodaima, col_chengjiaoliang, col_chengjiaoe,
                ''open'', ''close'', ''high'', ''low'', ''open_qfq'', ''close_qfq'', ''high_qfq'', ''low_qfq''],
      rows = map mrow T\<rparr>) project = Inr out \<longleftrightarrow>
   (\<forall>t \<in> set T. \<exists>c. cell_div (cell_of (fst t) col_chengjiaoe)
              (mul_scalar (cell_of (fst t) col_chengjiaoliang) 100) = Inr c)
    \<and> (\<forall>t \<in> set T. \<exists>b. cell_gt0 (mul_scalar (cell_of (fst t) col_chengjiaoliang) 100) = Inr b)
    \<and> col_shoupan \<in> set (columns a)
    \<and> (\<forall>z \<in> set (zip T (align (length T) (map (\<lambda>r. cell_of r col_shoupan) (rows a)))).
          \<exists>c. cell_div (part_cell (fst (snd (fst z))) col_shoupan) (snd z) = Inr c)
    \<and> out = \<lparr>columns = [''date'', ''open'', ''high'', ''low'', ''close'', ''volume'', ''amount'', ''vwap'', ''factor''],
               rows = map orow (zip T (align (length T) (map (\<lambda>r. cell_of r col_shoupan) (rows a))))\<rparr>"
  unfolding derive_columns_def project_def Let_def
  by (simp add: get_col_rec set_col_rec set_col_scalar_rec series_div_map apply_rows_rec
       andThen_mapM_Inr andThen_simps andThen_if_Inr andThen_assoc mrow_alt name_neqs
       set_cell_Nil set_cell_Cons_neq set_cell_Cons_eq vwap_guard_alt row_get_Cons row_get_Nil
       val_guard_of ex_guard_of get_col_def[of a]
       set_col_zip[where n = "''close_no_adj''"] andThen_select_Inr rename_def rename_one_def o_def
       cell_of_Cons orow_fun eq_commute[of _ out])

lemma norm_columns: "columns (norm f df) = columns df"
  by (simp add: norm_def)

lemma andThen_normalize_date:
  "andThen (normalize_date f df) k = Inr y \<longleftrightarrow>
     col_riqi \<in> set (columns df) \<and>
     (\<forall>r \<in> set (rows df). \<exists>d. f (cell_of r col_riqi) = Inr d) \<and>
     k (norm f df) = Inr y"
  by (auto simp: andThen_Inr normalize_date_iff)

lemma andThen_merge_sources:
  "andThen (merge_sources a h q) k = Inr y \<longleftrightarrow>
     {col_riqi, col_gupiaodaima, col_chengjiaoliang, col_chengjiaoe} \<subseteq> set (columns a) \<and>
     {col_riqi, col_kaipan, col_shoupan, col_zuigao, col_zuidi} \<subseteq> set (columns h) \<and>
     {col_riqi, col_kaipan, col_shoupan, col_zuigao, col_zuidi} \<subseteq> set (columns q) \<and>
     k \<lparr>columns = [col_riqi, col_gupiaodaima, col_chengjiaoliang, col_chengjiaoe,
                ''open'', ''close'', ''high'', ''low'', ''open_qfq'', ''close_qfq'', ''high_qfq'', ''low_qfq''],
              rows = map mrow (joined a h q)\<rparr> = Inr y"
  by (auto simp: andThen_Inr merge_sources_iff)

lemma build_table_iff:
  "build_table f code a0 h0 q0 = Inr out \<longleftrightarrow>
     table_ok f a0 h0 q0 \<and>
     out = \<lparr>columns = [''date'', ''open'', ''high'', ''low'', ''close'', ''volume'', ''amount'', ''vwap'', ''factor''],
            rows = out_rows (norm f a0) (norm f h0) (norm f q0)\<rparr>"
  unfolding build_table_def andThen_normalize_date andThen_merge_sources derive_project_iff
    table_ok_def out_rows_def norm_columns
  by auto

lemma map_of_put: "map_of (put fs p c) p = Some c"
  by (induction fs p c rule: put.induct) auto

lemmas sample_defs = sample_unadjusted_def sample_hfq_def sample_qfq_def unadjusted_def adjusted_def

lemma ymd_date: "ymd (Str ''2024-01-02'') = Inr (Str ''2024-01-02'')"
  "ymd (Str ''2024-01-03'') = Inr (Str ''2024-01-03'')"
  "ymd (Str ''2024-01-04'') = Inr (Str ''2024-01-04'')"
  by (simp_all add: ymd_def is_digit_def)

lemmas eval_simps = norm_def set_cell_Cons_eq set_cell_Cons_neq set_cell_Nil cell_of_Cons cell_of_Nil
  name_neqs val_def ymd_date

lemma sample_norm_unadjusted: "norm ymd sample_unadjusted = sample_unadjusted"
  unfolding sample_defs by (simp add: eval_simps)

lemma sample_norm_hfq: "norm ymd sample_hfq = sample_hfq"
  unfolding sample_defs by (simp add: eval_simps)

lemma sample_norm_qfq: "norm ymd sample_qfq = sample_qfq"
  unfolding sample_defs by (simp add: eval_simps)

lemma sample_joined: "joined sample_unadjusted sample_hfq sample_qfq =
  [(rows sample_unadjusted ! 0, Some (rows sample_hfq ! 0), Some (rows sample_qfq ! 0)),
   (rows sample_unadjusted ! 1, Some (rows sample_hfq ! 1), None),
   (rows sample_unadjusted ! 2, None, None)]"
  unfolding sample_defs joined_def by (simp add: partners_def cell_of_Cons name_neqs)

lemma sample_out_rows: "out_rows sample_unadjusted sample_hfq sample_qfq = rows sample_out"
  unfolding out_rows_def sample_joined
  unfolding sample_defs sample_out_def
  by (simp add: align_def orow_def part_cell_def cell_of_Cons cell_of_Nil name_neqs guarded_def val_def
      cell_div_def wrap64_def nan_def)

lemma sample_ok: "table_ok ymd sample_unadjusted sample_hfq sample_qfq"
  unfolding table_ok_def sample_norm_unadjusted sample_norm_hfq sample_norm_qfq sample_joined
  unfolding sample_defs
  by (auto simp: align_def part_cell_def cell_of_Cons cell_of_Nil name_neqs ymd_date
      cell_div_def wrap64_def nan_def)

lemma sample_build: "build_table ymd ''600001'' sample_unadjusted sample_hfq sample_qfq = Inr sample_out"
  unfolding build_table_iff sample_norm_unadjusted sample_norm_hfq sample_norm_qfq sample_out_rows
  by (simp add: sample_ok sample_out_def)

lemma process_True_iff:
  "process_stock_data f code dn dh dq dd w = Inr (True, w') \<longleftrightarrow>
     (\<exists>a0 h0 q0 out w1.
           read_csv w (dn, code @ ''_daily.csv'') = Inr a0 \<and>
           read_csv w (dh, code @ ''_daily_hfq.csv'') = Inr h0 \<and>
           read_csv w (dq, code @ ''_daily_qfq.csv'') = Inr q0 \<and>
           build_table f code a0 h0 q0 = Inr out \<and>
           makedirs w dd = Inr w1 \<and>
           to_csv w1 out (dd, exchange_of code @ code @ ''.csv'') False = Inr w')"
  unfolding process_stock_data_def try_body_def load_sources_def Let_def
  by (auto simp: andThen_def split: sum.splits prod.splits if_splits)

lemma makedirs_files: "makedirs w d = Inr w1 \<Longrightarrow> files w1 = files w \<and> d \<in> set (dirs w1)"
  by (auto simp: makedirs_def split: if_splits)

lemma to_csv_Inr:
  "to_csv w df p index = Inr w' \<longleftrightarrow>
     fst p \<in> set (dirs w) \<and> fst p \<notin> set (denied w) \<and>
     w' = w\<lparr>files := put (files w) p (Csv (if index then with_index df else df))\<rparr>"
  by (auto simp: to_csv_def write_file_def)

lemma sample_process:
  "process_stock_data ymd ''600001'' ''a'' ''h'' ''q'' ''o'' sample_world = Inr (True, sample_after)"
  unfolding process_True_iff
  apply (rule exI[of _ sample_unadjusted], rule exI[of _ sample_hfq], rule exI[of _ sample_qfq],
      rule exI[of _ sample_out], rule exI[of _ "sample_world\<lparr>dirs := [''a'', ''h'', ''q'', ''o'']\<rparr>"])
  apply (simp add: sample_build)
  apply (simp add: read_csv_def makedirs_def to_csv_Inr sample_world_def sample_after_def
      exchange_of_def startswith_def)
  done

lemma process_emits:
  assumes "process_stock_data f code dn dh dq dd w = Inr (True, w')"
  shows "\<exists>a0 h0 q0.
           read_csv w (dn, code @ ''_daily.csv'') = Inr a0 \<and>
           read_csv w (dh, code @ ''_daily_hfq.csv'') = Inr h0 \<and>
           read_csv w (dq, code @ ''_daily_qfq.csv'') = Inr q0 \<and>
           table_ok f a0 h0 q0 \<and>
           map_of (files w') (dd, exchange_of code @ code @ ''.csv'') =
             Some (Csv \<lparr>columns = [''date'', ''open'', ''high'', ''low'', ''close'', ''volume'',
                                   ''amount'', ''vwap'', ''factor''],
                        rows = out_rows (norm f a0) (norm f h0) (norm f q0)\<rparr>)"
proof -
  from assms obtain a0 h0 q0 out w1 where
    r: "read_csv w (dn, code @ ''_daily.csv'') = Inr a0"
       "read_csv w (dh, code @ ''_daily_hfq.csv'') = Inr h0"
       "read_csv w (dq, code @ ''_daily_qfq.csv'') = Inr q0" and
    b: "build_table f code a0 h0 q0 = Inr out" and
    t: "to_csv w1 out (dd, exchange_of code @ code @ ''.csv'') False = Inr w'"
    unfolding process_True_iff by blast
  from t have "map_of (files w') (dd, exchange_of code @ code @ ''.csv'') = Some (Csv out)"
    by (simp add: to_csv_Inr map_of_put)
  with r b show ?thesis
    unfolding build_table_iff by auto
qed

lemma orow_cells:
  "cell_of (orow z) ''date'' = cell_of (fst (fst z)) col_riqi"
  "cell_of (orow z) ''open'' = part_cell (fst (snd (fst z))) col_kaipan"
  "cell_of (orow z) ''high'' = part_cell (fst (snd (fst z))) col_zuigao"
  "cell_of (orow z) ''low'' = part_cell (fst (snd (fst z))) col_zuidi"
  "cell_of (orow z) ''close'' = part_cell (fst (snd (fst z))) col_shoupan"
  "cell_of (orow z) ''volume'' = mul_scalar (cell_of (fst (fst z)) col_chengjiaoliang) 100"
  "cell_of (orow z) ''amount'' = cell_of (fst (fst z)) col_chengjiaoe"
  "cell_of (orow z) ''vwap'' =
     guarded (mul_scalar (cell_of (fst (fst z)) col_chengjiaoliang) 100)
       (val (cell_div (cell_of (fst (fst z)) col_chengjiaoe)
          (mul_scalar (cell_of (fst (fst z)) col_chengjiaoliang) 100)))"
  "cell_of (orow z) ''factor'' = val (cell_div (part_cell (fst (snd (fst z))) col_shoupan) (snd z))"
  by (simp_all add: orow_def cell_of_Cons)

lemma orow_names:
  "map fst (orow z) =
     [''date'', ''open'', ''high'', ''low'', ''close'', ''volume'', ''amount'', ''vwap'', ''factor'']"
  by (simp add: orow_def)

lemma out_rows_elem:
  assumes "r \<in> set (out_rows a h q)"
  obtains t c where "t \<in> set (joined a h q)"
    and "(t, c) \<in> set (zip (joined a h q)
           (align (length (joined a h q)) (map (\<lambda>r. cell_of r col_shoupan) (rows a))))"
    and "r = orow (t, c)"
proof -
  from assms obtain z where
    z: "z \<in> set (zip (joined a h q)
           (align (length (joined a h q)) (map (\<lambda>r. cell_of r col_shoupan) (rows a))))"
    and r: "r = orow z"
    unfolding out_rows_def by auto
  obtain t c where tc: "z = (t, c)" by (cases z)
  from z tc have "t \<in> set (joined a h q)" by (auto dest: set_zip_leftD)
  with z r tc that show thesis by blast
qed

lemma partners_elem:
  assumes "p \<in> set (partners rs key k)"
  shows "(p = None \<and> (\<forall>b \<in> set rs. cell_of b key \<noteq> k)) \<or>
         (\<exists>b \<in> set rs. p = Some b \<and> cell_of b key = k)"
proof (cases "filter (\<lambda>b. cell_of b key = k) rs")
  case Nil
  then have "\<forall>b \<in> set rs. cell_of b key \<noteq> k"
    by (simp add: filter_empty_conv)
  with Nil assms show ?thesis by (simp add: partners_def)
next
  case (Cons b bs)
  with assms obtain b' where "p = Some b'" and "b' \<in> set (filter (\<lambda>b. cell_of b key = k) rs)"
    by (auto simp: partners_def)
  then show ?thesis by auto
qed

lemma joined_elem:
  assumes "t \<in> set (joined a h q)"
  shows "fst t \<in> set (rows a)"
    and "fst (snd t) \<in> set (partners (rows h) col_riqi (cell_of (fst t) col_riqi))"
    and "snd (snd t) \<in> set (partners (rows q) col_riqi (cell_of (fst t) col_riqi))"
  using assms unfolding joined_def by auto

lemma norm_row_elem:
  assumes "r \<in> set (rows (norm f df))"
  shows "\<exists>r0 \<in> set (rows df).
           cell_of r col_riqi = val (f (cell_of r0 col_riqi)) \<and>
           (\<forall>n. n \<noteq> col_riqi \<longrightarrow> cell_of r n = cell_of r0 n)"
  using assms unfolding norm_def by (auto simp: cell_of_set_cell)

lemma val_Inr: "f x = Inr d \<Longrightarrow> val (f x) = d"
  by (simp add: val_def)

lemmas frame_eval = norm_def joined_def partners_def out_rows_def table_ok_def
  set_cell_Cons_eq set_cell_Cons_neq set_cell_Nil cell_of_Cons cell_of_Nil name_neqs val_def ymd_date
  align_def orow_def part_cell_def guarded_def cell_div_def wrap64_def nan_def

lemma big_build: "build_table ymd ''600001'' big_unadjusted sample_hfq sample_qfq = Inr big_out"
  unfolding build_table_iff big_unadjusted_def big_out_def sample_defs
  by (auto simp: frame_eval)

lemma process_eval:
  assumes "read_csv w (dn, code @ ''_daily.csv'') = Inr a0"
    and "read_csv w (dh, code @ ''_daily_hfq.csv'') = Inr h0"
    and "read_csv w (dq, code @ ''_daily_qfq.csv'') = Inr q0"
    and "build_table f code a0 h0 q0 = Inr out"
    and "makedirs w dd = Inr w1"
    and "to_csv w1 out (dd, exchange_of code @ code @ ''.csv'') False = Inr w'"
  shows "process_stock_data f code dn dh dq dd w = Inr (True, w')"
  unfolding process_True_iff using assms by blast

lemma big_process:
  "process_stock_data ymd ''600001'' ''a'' ''h'' ''q'' ''o'' big_world =
     Inr (True, big_world\<lparr>files := files big_world @ [((''o'', ''SH600001.csv''), Csv big_out)]\<rparr>)"
  by (rule process_eval[OF _ _ _ big_build, where ?w1.0 = big_world])
    (simp_all add: read_csv_def makedirs_def to_csv_Inr big_world_def exchange_of_def startswith_def)

lemma emitted_vwap:
  assumes "table_ok f a0 h0 q0"
    and "r \<in> set (out_rows (norm f a0) (norm f h0) (norm f q0))"
  shows "\<exists>c. cell_div (cell_of r ''amount'') (cell_of r ''volume'') = Inr c \<and>
             cell_of r ''vwap'' = guarded (cell_of r ''volume'') c"
proof -
  from assms(2) obtain t c where
    t: "t \<in> set (joined (norm f a0) (norm f h0) (norm f q0))" and r: "r = orow (t, c)"
    by (rule out_rows_elem)
  from assms(1) t obtain c' where
    "cell_div (cell_of (fst t) col_chengjiaoe)
       (mul_scalar (cell_of (fst t) col_chengjiaoliang) 100) = Inr c'"
    unfolding table_ok_def by blast
  then show ?thesis
    unfolding r by (simp add: orow_cells val_def)
qed

lemma emitted_source:
  assumes "table_ok f a0 h0 q0"
    and "r \<in> set (out_rows (norm f a0) (norm f h0) (norm f q0))"
  shows "\<exists>u \<in> set (rows a0).
           f (cell_of u col_riqi) = Inr (cell_of r ''date'') \<and>
           cell_of r ''volume'' = mul_scalar (cell_of u col_chengjiaoliang) 100 \<and>
           cell_of r ''amount'' = cell_of u col_chengjiaoe"
proof -
  from assms(2) obtain t c where
    t: "t \<in> set (joined (norm f a0) (norm f h0) (norm f q0))" and r: "r = orow (t, c)"
    by (rule out_rows_elem)
  from joined_elem(1)[OF t] obtain u where
    u: "u \<in> set (rows a0)" and
    d: "cell_of (fst t) col_riqi = val (f (cell_of u col_riqi))" and
    o: "\<And>n. n \<noteq> col_riqi \<Longrightarrow> cell_of (fst t) n = cell_of u n"
    using norm_row_elem by blast
  from assms(1) u obtain dt where dt: "f (cell_of u col_riqi) = Inr dt"
    unfolding table_ok_def by blast
  from d dt have "f (cell_of u col_riqi) = Inr (cell_of r ''date'')"
    unfolding r by (simp add: orow_cells val_def)
  moreover have "cell_of r ''volume'' = mul_scalar (cell_of u col_chengjiaoliang) 100"
    unfolding r by (simp add: orow_cells o name_neqs)
  moreover have "cell_of r ''amount'' = cell_of u col_chengjiaoe"
    unfolding r by (simp add: orow_cells o name_neqs)
  ultimately show ?thesis using u by blast
qed

lemma wrap64_id: "- (2 ^ 63) \<le> x \<Longrightarrow> x < 2 ^ 63 \<Longrightarrow> wrap64 x = x"
  by (simp add: wrap64_def)

lemma big_process_after:
  "process_stock_data ymd ''600001'' ''a'' ''h'' ''q'' ''o'' big_world = Inr (True, big_after)"
  using big_process by (simp add: big_after_def)

lemma sample_read_unadjusted:
  "read_csv sample_world (''a'', ''600001_daily.csv'') = Inr sample_unadjusted"
  by (simp add: read_csv_def sample_world_def)

lemma sample_read_hfq:
  "read_csv sample_world (''h'', ''600001_daily_hfq.csv'') = Inr sample_hfq"
  by (simp add: read_csv_def sample_world_def)

lemma sample_read_qfq:
  "read_csv sample_world (''q'', ''600001_daily_qfq.csv'') = Inr sample_qfq"
  by (simp add: read_csv_def sample_world_def)

lemma sample_written:
  "map_of (files sample_after) (''o'', ''SH600001.csv'') = Some (Csv sample_out)"
  by (simp add: sample_after_def sample_world_def)

lemma norm_row_intro:
  "b \<in> set (rows df) \<Longrightarrow> set_cell b col_riqi (val (f (cell_of b col_riqi))) \<in> set (rows (norm f df))"
  by (simp add: norm_def)

lemma emitted_prices:
  assumes "table_ok f a0 h0 q0"
    and "r \<in> set (out_rows (norm f a0) (norm f h0) (norm f q0))"
  shows "(\<exists>b \<in> set (rows h0).
             f (cell_of b col_riqi) = Inr (cell_of r ''date'') \<and>
             cell_of r ''open'' = cell_of b col_kaipan \<and>
             cell_of r ''high'' = cell_of b col_zuigao \<and>
             cell_of r ''low'' = cell_of b col_zuidi \<and>
             cell_of r ''close'' = cell_of b col_shoupan) \<or>
         ((\<forall>b \<in> set (rows h0). f (cell_of b col_riqi) \<noteq> Inr (cell_of r ''date'')) \<and>
             cell_of r ''open'' = nan \<and> cell_of r ''high'' = nan \<and>
             cell_of r ''low'' = nan \<and> cell_of r ''close'' = nan)"
proof -
  from assms(2) obtain t c where
    t: "t \<in> set (joined (norm f a0) (norm f h0) (norm f q0))" and r: "r = orow (t, c)"
    by (rule out_rows_elem)
  have d: "cell_of r ''date'' = cell_of (fst t) col_riqi"
    unfolding r by (simp add: orow_cells)
  from partners_elem[OF joined_elem(2)[OF t]]
  consider (none) "fst (snd t) = None"
      "\<forall>b \<in> set (rows (norm f h0)). cell_of b col_riqi \<noteq> cell_of (fst t) col_riqi"
    | (some) b' where "b' \<in> set (rows (norm f h0))" "fst (snd t) = Some b'"
      "cell_of b' col_riqi = cell_of (fst t) col_riqi"
    by (elim disjE conjE bexE) auto
  then show ?thesis
  proof cases
    case none
    have "f (cell_of b col_riqi) \<noteq> Inr (cell_of r ''date'')" if b: "b \<in> set (rows h0)" for b
    proof
      assume e: "f (cell_of b col_riqi) = Inr (cell_of r ''date'')"
      from none(2) norm_row_intro[OF b, of f]
      have "cell_of (set_cell b col_riqi (val (f (cell_of b col_riqi)))) col_riqi
              \<noteq> cell_of (fst t) col_riqi"
        by blast
      with e d show False
        by (simp add: cell_of_set_cell val_def)
    qed
    moreover have "cell_of r ''open'' = nan \<and> cell_of r ''high'' = nan \<and>
             cell_of r ''low'' = nan \<and> cell_of r ''close'' = nan"
      unfolding r using none(1) by (simp add: orow_cells part_cell_def)
    ultimately show ?thesis by blast
  next
    case some
    from norm_row_elem[OF some(1)] obtain b where
      b: "b \<in> set (rows h0)" and
      k: "cell_of b' col_riqi = val (f (cell_of b col_riqi))" and
      o: "\<And>n. n \<noteq> col_riqi \<Longrightarrow> cell_of b' n = cell_of b n"
      by blast
    from assms(1) b obtain dt where dt: "f (cell_of b col_riqi) = Inr dt"
      unfolding table_ok_def by blast
    from dt k some(3) d have "f (cell_of b col_riqi) = Inr (cell_of r ''date'')"
      by (simp add: val_def)
    moreover have "cell_of r ''open'' = cell_of b col_kaipan \<and>
             cell_of r ''high'' = cell_of b col_zuigao \<and>
             cell_of r ''low'' = cell_of b col_zuidi \<and>
             cell_of r ''close'' = cell_of b col_shoupan"
      unfolding r using some(2) by (simp add: orow_cells part_cell_def o name_neqs)
    ultimately show ?thesis using b by blast
  qed
qed

lemma out_rows_names:
  "r \<in> set (out_rows a h q) \<Longrightarrow>
     map fst r = [''date'', ''open'', ''high'', ''low'', ''close'', ''volume'', ''amount'', ''vwap'', ''factor'']"
  by (auto simp: out_rows_def orow_names)

lemma dup_build: "build_table ymd ''000001'' dup_unadjusted dup_hfq sample_qfq = Inr dup_out"
  unfolding build_table_iff dup_unadjusted_def dup_hfq_def dup_out_def sample_defs
  by (auto simp: frame_eval)

lemma dup_process:
  "process_stock_data ymd ''000001'' ''a'' ''h'' ''q'' ''o'' dup_world = Inr (True, dup_after)"
  by (rule process_eval[OF _ _ _ dup_build, where ?w1.0 = dup_world])
    (simp_all add: read_csv_def makedirs_def to_csv_Inr dup_world_def dup_after_def
       exchange_of_def startswith_def)

lemma filter_distinct_key:
  "distinct (map g rs) \<Longrightarrow> length (filter (\<lambda>b. g b = k) rs) \<le> 1"
proof (induction rs)
  case Nil
  then show ?case by simp
next
  case (Cons b rs)
  show ?case
  proof (cases "g b = k")
    case True
    from Cons.prems have "g b \<notin> g ` set rs"
      by simp
    with True have "\<forall>x \<in> set rs. g x \<noteq> k"
      by (metis imageI)
    then have "filter (\<lambda>b. g b = k) rs = []"
      by (simp add: filter_empty_conv)
    with True show ?thesis by simp
  next
    case False
    with Cons show ?thesis by simp
  qed
qed

lemma partners_distinct:
  assumes "distinct (map (\<lambda>b. cell_of b key) rs)"
  shows "partners rs key k = [hd (partners rs key k)]"
proof -
  from filter_distinct_key[OF assms, of k]
  have "length (filter (\<lambda>b. cell_of b key = k) rs) \<le> 1" .
  then show ?thesis
    by (cases "filter (\<lambda>b. cell_of b key = k) rs") (auto simp: partners_def)
qed

lemma partners_nonempty: "partners rs key k \<noteq> []"
  by (simp add: partners_def split: list.splits)

lemma joined_distinct:
  assumes "distinct (map (\<lambda>b. cell_of b col_riqi) (rows h))"
    and "distinct (map (\<lambda>b. cell_of b col_riqi) (rows q))"
  shows "joined a h q =
     map (\<lambda>ra. (ra, hd (partners (rows h) col_riqi (cell_of ra col_riqi)),
                   hd (partners (rows q) col_riqi (cell_of ra col_riqi)))) (rows a)"
proof -
  have "concat (map (\<lambda>ph. map (\<lambda>pq. (ra, ph, pq)) (partners (rows q) col_riqi (cell_of ra col_riqi)))
         (partners (rows h) col_riqi (cell_of ra col_riqi))) =
        [(ra, hd (partners (rows h) col_riqi (cell_of ra col_riqi)),
              hd (partners (rows q) col_riqi (cell_of ra col_riqi)))]" for ra
    by (subst partners_distinct[OF assms(1)], subst partners_distinct[OF assms(2)]) simp
  then show ?thesis
    unfolding joined_def by (induction "rows a") simp_all
qed

lemma length_concat_map_ge:
  assumes "\<And>x. F x \<noteq> []"
  shows "length xs \<le> length (concat (map F xs))"
proof (induction xs)
  case Nil
  then show ?case by simp
next
  case (Cons x xs)
  have "1 \<le> length (F x)"
    using assms[of x] by (cases "F x") auto
  with Cons show ?case by simp
qed

lemma length_joined: "length (rows a) \<le> length (joined a h q)"
proof -
  have "concat (map (\<lambda>ph. map (\<lambda>pq. (ra, ph, pq)) (partners (rows q) col_riqi (cell_of ra col_riqi)))
         (partners (rows h) col_riqi (cell_of ra col_riqi))) \<noteq> []" for ra :: row
  proof -
    obtain p ps where p: "partners (rows h) col_riqi (cell_of ra col_riqi) = p # ps"
      using partners_nonempty by (cases "partners (rows h) col_riqi (cell_of ra col_riqi)") auto
    obtain p' ps' where p': "partners (rows q) col_riqi (cell_of ra col_riqi) = p' # ps'"
      using partners_nonempty by (cases "partners (rows q) col_riqi (cell_of ra col_riqi)") auto
    show ?thesis by (simp add: p p')
  qed
  then show ?thesis
    unfolding joined_def by (rule length_concat_map_ge)
qed

lemma length_out_rows: "length (out_rows a h q) = length (joined a h q)"
  by (simp add: out_rows_def align_def)

lemma norm_dates_distinct:
  assumes "\<forall>r \<in> set (rows df). \<exists>d. f (cell_of r col_riqi) = Inr d"
    and "distinct (map (\<lambda>r. f (cell_of r col_riqi)) (rows df))"
  shows "distinct (map (\<lambda>b. cell_of b col_riqi) (rows (norm f df)))"
proof -
  have e: "map (\<lambda>b. cell_of b col_riqi) (rows (norm f df)) =
        map (\<lambda>r. val (f (cell_of r col_riqi))) (rows df)"
    by (simp add: norm_def cell_of_set_cell o_def)
  from assms(2) have d: "distinct (rows df)" and i: "inj_on (\<lambda>r. f (cell_of r col_riqi)) (set (rows df))"
    by (simp_all add: distinct_map)
  have "inj_on (\<lambda>r. val (f (cell_of r col_riqi))) (set (rows df))"
  proof (rule inj_onI)
    fix x y
    assume x: "x \<in> set (rows df)" and y: "y \<in> set (rows df)"
      and v: "val (f (cell_of x col_riqi)) = val (f (cell_of y col_riqi))"
    from assms(1) x y obtain dx dy where
      "f (cell_of x col_riqi) = Inr dx" "f (cell_of y col_riqi) = Inr dy"
      by blast
    with v have "f (cell_of x col_riqi) = f (cell_of y col_riqi)"
      by (simp add: val_def)
    with i x y show "x = y" by (auto dest: inj_onD)
  qed
  with d show ?thesis
    unfolding e by (simp add: distinct_map)
qed

lemma out_rows_distinct:
  assumes "distinct (map (\<lambda>b. cell_of b col_riqi) (rows h))"
    and "distinct (map (\<lambda>b. cell_of b col_riqi) (rows q))"
  shows "out_rows a h q =
     map (\<lambda>ra. orow ((ra, hd (partners (rows h) col_riqi (cell_of ra col_riqi)),
                        hd (partners (rows q) col_riqi (cell_of ra col_riqi))),
                      cell_of ra col_shoupan)) (rows a)"
    and "zip (joined a h q) (align (length (joined a h q)) (map (\<lambda>r. cell_of r col_shoupan) (rows a))) =
     map (\<lambda>ra. ((ra, hd (partners (rows h) col_riqi (cell_of ra col_riqi)),
                        hd (partners (rows q) col_riqi (cell_of ra col_riqi))),
                      cell_of ra col_shoupan)) (rows a)"
  unfolding out_rows_def joined_distinct[OF assms]
  by (simp_all add: align_same zip_map_map zip_same_conv_map o_def)

lemma emitted_positional:
  assumes ok: "table_ok f a0 h0 q0"
    and dh: "distinct (map (\<lambda>r. f (cell_of r col_riqi)) (rows h0))"
    and dq: "distinct (map (\<lambda>r. f (cell_of r col_riqi)) (rows q0))"
  shows "length (out_rows (norm f a0) (norm f h0) (norm f q0)) = length (rows a0)"
    and "i < length (rows a0) \<Longrightarrow>
           f (cell_of (rows a0 ! i) col_riqi) =
             Inr (cell_of (out_rows (norm f a0) (norm f h0) (norm f q0) ! i) ''date'') \<and>
           cell_div (cell_of (out_rows (norm f a0) (norm f h0) (norm f q0) ! i) ''close'')
               (cell_of (rows a0 ! i) col_shoupan) =
             Inr (cell_of (out_rows (norm f a0) (norm f h0) (norm f q0) ! i) ''factor'')"
proof -
  from ok have ph: "\<forall>r \<in> set (rows h0). \<exists>d. f (cell_of r col_riqi) = Inr d"
    and pq: "\<forall>r \<in> set (rows q0). \<exists>d. f (cell_of r col_riqi) = Inr d"
    and pa: "\<forall>r \<in> set (rows a0). \<exists>d. f (cell_of r col_riqi) = Inr d"
    unfolding table_ok_def by blast+
  note nh = norm_dates_distinct[OF ph dh] and nq = norm_dates_distinct[OF pq dq]
  note o = out_rows_distinct[OF nh nq, of "norm f a0"]
  have la: "length (rows (norm f a0)) = length (rows a0)"
    by (simp add: norm_def)
  show "length (out_rows (norm f a0) (norm f h0) (norm f q0)) = length (rows a0)"
    unfolding o(1) by (simp add: la)
  assume i: "i < length (rows a0)"
  let ?r = "rows a0 ! i"
  let ?n = "rows (norm f a0) ! i"
  have n: "?n = set_cell ?r col_riqi (val (f (cell_of ?r col_riqi)))"
    using i by (simp add: norm_def)
  let ?z = "((?n, hd (partners (rows (norm f h0)) col_riqi (cell_of ?n col_riqi)),
                  hd (partners (rows (norm f q0)) col_riqi (cell_of ?n col_riqi))),
             cell_of ?n col_shoupan)"
  have e: "out_rows (norm f a0) (norm f h0) (norm f q0) ! i = orow ?z"
    unfolding o(1) using i la by simp
  have "?z \<in> set (zip (joined (norm f a0) (norm f h0) (norm f q0))
            (align (length (joined (norm f a0) (norm f h0) (norm f q0)))
               (map (\<lambda>r. cell_of r col_shoupan) (rows (norm f a0)))))"
    unfolding o(2) using i la by (auto simp: in_set_conv_nth intro!: image_eqI[where x = "?n"])
  with ok obtain c where
    c: "cell_div (part_cell (fst (snd (fst ?z))) col_shoupan) (snd ?z) = Inr c"
    unfolding table_ok_def by blast
  from pa i obtain d where d: "f (cell_of ?r col_riqi) = Inr d"
    by (meson nth_mem)
  have s: "cell_of ?n col_shoupan = cell_of ?r col_shoupan"
    unfolding n by (simp add: cell_of_set_cell name_neqs)
  have k: "cell_of ?n col_riqi = d"
    unfolding n using d by (simp add: cell_of_set_cell val_def)
  from c s have "cell_div (cell_of (orow ?z) ''close'') (cell_of ?r col_shoupan) =
      Inr (cell_of (orow ?z) ''factor'')"
    by (simp add: orow_cells val_def)
  moreover from d k have "f (cell_of ?r col_riqi) = Inr (cell_of (orow ?z) ''date'')"
    by (simp add: orow_cells)
  ultimately show "f (cell_of (rows a0 ! i) col_riqi) =
             Inr (cell_of (out_rows (norm f a0) (norm f h0) (norm f q0) ! i) ''date'') \<and>
           cell_div (cell_of (out_rows (norm f a0) (norm f h0) (norm f q0) ! i) ''close'')
               (cell_of (rows a0 ! i) col_shoupan) =
             Inr (cell_of (out_rows (norm f a0) (norm f h0) (norm f q0) ! i) ''factor'')"
    unfolding e by simp
qed

lemma process_emits_named:
  assumes "process_stock_data f code dn dh dq dd w = Inr (True, w')"
    and "read_csv w (dn, code @ ''_daily.csv'') = Inr a0"
    and "read_csv w (dh, code @ ''_daily_hfq.csv'') = Inr h0"
    and "read_csv w (dq, code @ ''_daily_qfq.csv'') = Inr q0"
  shows "table_ok f a0 h0 q0"
    and "map_of (files w') (dd, exchange_of code @ code @ ''.csv'') =
             Some (Csv \<lparr>columns = [''date'', ''open'', ''high'', ''low'', ''close'', ''volume'',
                                   ''amount'', ''vwap'', ''factor''],
                        rows = out_rows (norm f a0) (norm f h0) (norm f q0)\<rparr>)"
  using process_emits[OF assms(1)] assms(2-4) by auto

lemma dup_reads:
  "read_csv dup_world (''a'', ''000001_daily.csv'') = Inr dup_unadjusted"
  "read_csv dup_world (''h'', ''000001_daily_hfq.csv'') = Inr dup_hfq"
  "read_csv dup_world (''q'', ''000001_daily_qfq.csv'') = Inr sample_qfq"
  by (simp_all add: read_csv_def dup_world_def)

lemma dup_written: "map_of (files dup_after) (''o'', ''SZ000001.csv'') = Some (Csv dup_out)"
  by (simp add: dup_after_def dup_world_def)

lemma sample_dates_distinct:
  "distinct (map (\<lambda>r. ymd (cell_of r col_riqi)) (rows sample_hfq))"
  "distinct (map (\<lambda>r. ymd (cell_of r col_riqi)) (rows sample_qfq))"
  by (simp_all add: sample_defs cell_of_Cons ymd_date)

section \<open>The claims\<close>

text \<open>
  C8: the exchange prefix depends on the first character of the instrument identifier
  only: \<^verbatim>\<open>SH\<close> when it is the digit 6, \<^verbatim>\<open>SZ\<close> otherwise (also for the empty
  identifier). A successful call writes exactly one file, named prefix, identifier,
  \<^verbatim>\<open>.csv\<close>, in the output directory, and leaves every other file as it was.
\<close>

theorem exchange_prefix_by_first_character:
  "exchange_of stock_code =
     (case stock_code of [] \<Rightarrow> ''SZ'' | c # rest \<Rightarrow> if c = CHR ''6'' then ''SH'' else ''SZ'') \<and>
   (process_stock_data to_ymd stock_code dn dh dq dd w = Inr (True, w') \<longrightarrow>
      (\<exists>out. files w' =
         put (files w) (dd, exchange_of stock_code @ stock_code @ ''.csv'') (Csv out)))"
proof
  show "exchange_of stock_code =
     (case stock_code of [] \<Rightarrow> ''SZ'' | c # rest \<Rightarrow> if c = CHR ''6'' then ''SH'' else ''SZ'')"
    by (cases stock_code) (simp_all add: exchange_of_def startswith_def)
next
  show "process_stock_data to_ymd stock_code dn dh dq dd w = Inr (True, w') \<longrightarrow>
      (\<exists>out. files w' =
         put (files w) (dd, exchange_of stock_code @ stock_code @ ''.csv'') (Csv out))"
  proof
    assume "process_stock_data to_ymd stock_code dn dh dq dd w = Inr (True, w')"
    then obtain out w1 where
      m: "makedirs w dd = Inr w1" and
      t: "to_csv w1 out (dd, exchange_of stock_code @ stock_code @ ''.csv'') False = Inr w'"
      unfolding process_True_iff by blast
    from t have "files w' = put (files w1) (dd, exchange_of stock_code @ stock_code @ ''.csv'') (Csv out)"
      by (simp add: to_csv_Inr)
    with makedirs_files[OF m] show "\<exists>out. files w' =
         put (files w) (dd, exchange_of stock_code @ stock_code @ ''.csv'') (Csv out)"
      by auto
  qed
qed

theorem exchange_prefix_witness:
  "exchange_of ''600001'' = ''SH'' \<and> exchange_of ''000001'' = ''SZ'' \<and>
   process_stock_data ymd ''600001'' ''a'' ''h'' ''q'' ''o'' sample_world = Inr (True, sample_after) \<and>
   (\<exists>out. files sample_after = put (files sample_world) (''o'', ''SH600001.csv'') (Csv out))"
  using exchange_prefix_by_first_character[of "''600001''" ymd "''a''" "''h''" "''q''" "''o''"
      sample_world sample_after]
    exchange_prefix_by_first_character[of "''000001''" ymd "''a''" "''h''" "''q''" "''o''"
      sample_world sample_after]
    sample_process
  by auto

text \<open>
  C2: in every row of the table a successful call writes, the vwap is the quotient of the
  row's amount by its volume when the volume is greater than zero, and it is NaN (the
  null of the table) when the volume is zero, as an integer or as a float. The call
  succeeded, so no error arose, and NaN is no infinity.
\<close>

theorem vwap_is_amount_over_positive_volume:
  assumes "process_stock_data to_ymd stock_code dn dh dq dd w = Inr (True, w')"
  shows "\<exists>out. map_of (files w') (dd, exchange_of stock_code @ stock_code @ ''.csv'') = Some (Csv out) \<and>
           (\<forall>r \<in> set (rows out).
              (cell_gt0 (cell_of r ''volume'') = Inr True \<longrightarrow>
                 cell_div (cell_of r ''amount'') (cell_of r ''volume'') = Inr (cell_of r ''vwap'')) \<and>
              (cell_of r ''volume'' = I64 0 \<or> cell_of r ''volume'' = F64 (Fin 0) \<longrightarrow>
                 cell_of r ''vwap'' = nan))"
proof -
  from process_emits[OF assms] obtain a0 h0 q0 where
    ok: "table_ok to_ymd a0 h0 q0" and
    written: "map_of (files w') (dd, exchange_of stock_code @ stock_code @ ''.csv'') =
             Some (Csv \<lparr>columns = [''date'', ''open'', ''high'', ''low'', ''close'', ''volume'',
                                   ''amount'', ''vwap'', ''factor''],
                        rows = out_rows (norm to_ymd a0) (norm to_ymd h0) (norm to_ymd q0)\<rparr>)"
    by blast
  have "(cell_gt0 (cell_of r ''volume'') = Inr True \<longrightarrow>
                 cell_div (cell_of r ''amount'') (cell_of r ''volume'') = Inr (cell_of r ''vwap'')) \<and>
              (cell_of r ''volume'' = I64 0 \<or> cell_of r ''volume'' = F64 (Fin 0) \<longrightarrow>
                 cell_of r ''vwap'' = nan)"
    if "r \<in> set (out_rows (norm to_ymd a0) (norm to_ymd h0) (norm to_ymd q0))" for r
    using emitted_vwap[OF ok that] by (auto simp: guarded_def)
  with written show ?thesis by simp
qed

theorem vwap_is_amount_over_positive_volume_witness:
  "process_stock_data ymd ''600001'' ''a'' ''h'' ''q'' ''o'' sample_world = Inr (True, sample_after) \<and>
   (\<exists>out. map_of (files sample_after) (''o'', ''SH600001.csv'') = Some (Csv out) \<and>
           (\<forall>r \<in> set (rows out).
              (cell_gt0 (cell_of r ''volume'') = Inr True \<longrightarrow>
                 cell_div (cell_of r ''amount'') (cell_of r ''volume'') = Inr (cell_of r ''vwap'')) \<and>
              (cell_of r ''volume'' = I64 0 \<or> cell_of r ''volume'' = F64 (Fin 0) \<longrightarrow>
                 cell_of r ''vwap'' = nan)))"
  using vwap_is_amount_over_positive_volume[OF sample_process] sample_process
  by (simp add: exchange_of_def startswith_def)

text \<open>
  C10: in every row of the table a successful call writes, the vwap is NaN when the
  volume is negative (a negative integer, a negative float or minus infinity), and more
  generally whenever the test \<^verbatim>\<open>volume > 0\<close> is false: the guard of line 81 keeps the
  quotient only for a volume greater than zero.
\<close>

theorem vwap_null_for_negative_volume:
  assumes "process_stock_data to_ymd stock_code dn dh dq dd w = Inr (True, w')"
  shows "\<exists>out. map_of (files w') (dd, exchange_of stock_code @ stock_code @ ''.csv'') = Some (Csv out) \<and>
           (\<forall>r \<in> set (rows out).
              (\<forall>v. cell_of r ''volume'' = I64 v \<and> v < 0 \<longrightarrow> cell_of r ''vwap'' = nan) \<and>
              (\<forall>x. cell_of r ''volume'' = F64 (Fin x) \<and> x < 0 \<longrightarrow> cell_of r ''vwap'' = nan) \<and>
              (cell_of r ''volume'' = F64 NInf \<longrightarrow> cell_of r ''vwap'' = nan) \<and>
              (cell_gt0 (cell_of r ''volume'') = Inr False \<longrightarrow> cell_of r ''vwap'' = nan))"
proof -
  from process_emits[OF assms] obtain a0 h0 q0 where
    ok: "table_ok to_ymd a0 h0 q0" and
    written: "map_of (files w') (dd, exchange_of stock_code @ stock_code @ ''.csv'') =
             Some (Csv \<lparr>columns = [''date'', ''open'', ''high'', ''low'', ''close'', ''volume'',
                                   ''amount'', ''vwap'', ''factor''],
                        rows = out_rows (norm to_ymd a0) (norm to_ymd h0) (norm to_ymd q0)\<rparr>)"
    by blast
  have "(\<forall>v. cell_of r ''volume'' = I64 v \<and> v < 0 \<longrightarrow> cell_of r ''vwap'' = nan) \<and>
              (\<forall>x. cell_of r ''volume'' = F64 (Fin x) \<and> x < 0 \<longrightarrow> cell_of r ''vwap'' = nan) \<and>
              (cell_of r ''volume'' = F64 NInf \<longrightarrow> cell_of r ''vwap'' = nan) \<and>
              (cell_gt0 (cell_of r ''volume'') = Inr False \<longrightarrow> cell_of r ''vwap'' = nan)"
    if "r \<in> set (out_rows (norm to_ymd a0) (norm to_ymd h0) (norm to_ymd q0))" for r
    using emitted_vwap[OF ok that] by (auto simp: guarded_def)
  with written show ?thesis by simp
qed

theorem vwap_null_for_negative_volume_witness:
  "process_stock_data ymd ''600001'' ''a'' ''h'' ''q'' ''o'' sample_world = Inr (True, sample_after) \<and>
   map_of (files sample_after) (''o'', ''SH600001.csv'') = Some (Csv sample_out) \<and>
   cell_of (rows sample_out ! 2) ''volume'' = I64 (- 500) \<and>
   cell_of (rows sample_out ! 2) ''vwap'' = nan"
proof -
  have f: "map_of (files sample_after) (''o'', ''SH600001.csv'') = Some (Csv sample_out)"
    by (simp add: sample_after_def sample_world_def)
  have v: "cell_of (rows sample_out ! 2) ''volume'' = I64 (- 500)"
    by (simp add: sample_out_def cell_of_Cons)
  have m: "rows sample_out ! 2 \<in> set (rows sample_out)"
    by (simp add: sample_out_def)
  from vwap_null_for_negative_volume[OF sample_process] f
  have "\<forall>r \<in> set (rows sample_out).
          \<forall>v. cell_of r ''volume'' = I64 v \<and> v < 0 \<longrightarrow> cell_of r ''vwap'' = nan"
    by (simp add: exchange_of_def startswith_def)
  with m v have "cell_of (rows sample_out ! 2) ''vwap'' = nan"
    by (metis neg_less_0_iff_less zero_less_numeral)
  with sample_process f v show ?thesis by simp
qed

text \<open>
  C9, as amended: every row of the table a successful call writes comes from a row of the
  unadjusted file with the same normalized date; its volume is that row's volume in lots
  times 100 in the arithmetic of the column, and its amount is that row's amount
  unchanged. For an integer volume the product is reduced into the signed 64-bit range;
  it is the plain product whenever that lies in the range (100 lots give 10000 shares).
\<close>

theorem volume_is_lots_times_100_in_column_arithmetic:
  assumes "process_stock_data to_ymd stock_code dn dh dq dd w = Inr (True, w')"
    and "read_csv w (dn, stock_code @ ''_daily.csv'') = Inr no_adj_df"
  shows "\<exists>out. map_of (files w') (dd, exchange_of stock_code @ stock_code @ ''.csv'') = Some (Csv out) \<and>
           (\<forall>r \<in> set (rows out). \<exists>u \<in> set (rows no_adj_df).
              to_ymd (cell_of u col_riqi) = Inr (cell_of r ''date'') \<and>
              cell_of r ''volume'' = mul_scalar (cell_of u col_chengjiaoliang) 100 \<and>
              cell_of r ''amount'' = cell_of u col_chengjiaoe \<and>
              (\<forall>v. cell_of u col_chengjiaoliang = I64 v \<longrightarrow>
                 cell_of r ''volume'' = I64 ((v * 100 + 2 ^ 63) mod 2 ^ 64 - 2 ^ 63)) \<and>
              (\<forall>v. cell_of u col_chengjiaoliang = I64 v \<and> - (2 ^ 63) \<le> v * 100 \<and> v * 100 < 2 ^ 63 \<longrightarrow>
                 cell_of r ''volume'' = I64 (v * 100)))"
proof -
  from process_emits[OF assms(1)] assms(2) obtain h0 q0 where
    ok: "table_ok to_ymd no_adj_df h0 q0" and
    written: "map_of (files w') (dd, exchange_of stock_code @ stock_code @ ''.csv'') =
             Some (Csv \<lparr>columns = [''date'', ''open'', ''high'', ''low'', ''close'', ''volume'',
                                   ''amount'', ''vwap'', ''factor''],
                        rows = out_rows (norm to_ymd no_adj_df) (norm to_ymd h0) (norm to_ymd q0)\<rparr>)"
    by auto
  have "\<exists>u \<in> set (rows no_adj_df).
              to_ymd (cell_of u col_riqi) = Inr (cell_of r ''date'') \<and>
              cell_of r ''volume'' = mul_scalar (cell_of u col_chengjiaoliang) 100 \<and>
              cell_of r ''amount'' = cell_of u col_chengjiaoe \<and>
              (\<forall>v. cell_of u col_chengjiaoliang = I64 v \<longrightarrow>
                 cell_of r ''volume'' = I64 ((v * 100 + 2 ^ 63) mod 2 ^ 64 - 2 ^ 63)) \<and>
              (\<forall>v. cell_of u col_chengjiaoliang = I64 v \<and> - (2 ^ 63) \<le> v * 100 \<and> v * 100 < 2 ^ 63 \<longrightarrow>
                 cell_of r ''volume'' = I64 (v * 100))"
    if "r \<in> set (out_rows (norm to_ymd no_adj_df) (norm to_ymd h0) (norm to_ymd q0))" for r
  proof -
    from emitted_source[OF ok that] obtain u where
      u: "u \<in> set (rows no_adj_df)" and
      s: "to_ymd (cell_of u col_riqi) = Inr (cell_of r ''date'')"
         "cell_of r ''volume'' = mul_scalar (cell_of u col_chengjiaoliang) 100"
         "cell_of r ''amount'' = cell_of u col_chengjiaoe"
      by blast
    have "cell_of r ''volume'' = I64 ((v * 100 + 2 ^ 63) mod 2 ^ 64 - 2 ^ 63)"
      if "cell_of u col_chengjiaoliang = I64 v" for v
      using s(2) that by (simp add: wrap64_def)
    moreover have "cell_of r ''volume'' = I64 (v * 100)"
      if "cell_of u col_chengjiaoliang = I64 v \<and> - (2 ^ 63) \<le> v * 100 \<and> v * 100 < 2 ^ 63" for v
      using s(2) that by (simp add: wrap64_id)
    ultimately show ?thesis using u s by blast
  qed
  with written show ?thesis by simp
qed

theorem volume_is_lots_times_100_witness:
  "process_stock_data ymd ''600001'' ''a'' ''h'' ''q'' ''o'' sample_world = Inr (True, sample_after) \<and>
   read_csv sample_world (''a'', ''600001_daily.csv'') = Inr sample_unadjusted \<and>
   (\<exists>out. map_of (files sample_after) (''o'', ''SH600001.csv'') = Some (Csv out) \<and>
      (\<forall>r \<in> set (rows out). \<exists>u \<in> set (rows sample_unadjusted).
         ymd (cell_of u col_riqi) = Inr (cell_of r ''date'') \<and>
         cell_of r ''volume'' = mul_scalar (cell_of u col_chengjiaoliang) 100 \<and>
         cell_of r ''amount'' = cell_of u col_chengjiaoe)) \<and>
   map_of (files sample_after) (''o'', ''SH600001.csv'') = Some (Csv sample_out) \<and>
   cell_of (rows sample_unadjusted ! 0) col_chengjiaoliang = I64 100 \<and>
   cell_of (rows sample_out ! 0) ''volume'' = I64 10000 \<and>
   cell_of (rows sample_unadjusted ! 0) col_chengjiaoe = F64 (Fin 5000) \<and>
   cell_of (rows sample_out ! 0) ''amount'' = F64 (Fin 5000)"
proof -
  from volume_is_lots_times_100_in_column_arithmetic[where to_ymd = ymd and stock_code = "''600001''" and dn = "''a''"
      and dh = "''h''" and dq = "''q''" and dd = "''o''" and w = sample_world and w' = sample_after
      and no_adj_df = sample_unadjusted]
    sample_process sample_read_unadjusted
  have "\<exists>out. map_of (files sample_after) (''o'', ''SH600001.csv'') = Some (Csv out) \<and>
      (\<forall>r \<in> set (rows out). \<exists>u \<in> set (rows sample_unadjusted).
         ymd (cell_of u col_riqi) = Inr (cell_of r ''date'') \<and>
         cell_of r ''volume'' = mul_scalar (cell_of u col_chengjiaoliang) 100 \<and>
         cell_of r ''amount'' = cell_of u col_chengjiaoe)"
    by (simp add: exchange_of_def startswith_def) blast
  moreover have "cell_of (rows sample_unadjusted ! 0) col_chengjiaoliang = I64 100 \<and>
      cell_of (rows sample_unadjusted ! 0) col_chengjiaoe = F64 (Fin 5000)"
    by (simp add: sample_defs cell_of_Cons name_neqs)
  moreover have "cell_of (rows sample_out ! 0) ''volume'' = I64 10000 \<and>
      cell_of (rows sample_out ! 0) ''amount'' = F64 (Fin 5000)"
    by (simp add: sample_out_def cell_of_Cons)
  ultimately show ?thesis
    using sample_process sample_read_unadjusted sample_written by blast
qed

theorem volume_times_100_counterexample:
  "process_stock_data ymd ''600001'' ''a'' ''h'' ''q'' ''o'' big_world = Inr (True, big_after) \<and>
   read_csv big_world (''a'', ''600001_daily.csv'') = Inr big_unadjusted \<and>
   map_of (files big_after) (''o'', ''SH600001.csv'') = Some (Csv big_out) \<and>
   length (rows big_unadjusted) = 1 \<and> length (rows big_out) = 1 \<and>
   cell_of (rows big_unadjusted ! 0) col_chengjiaoliang = I64 100000000000000000 \<and>
   cell_of (rows big_out ! 0) ''volume'' = I64 (- 8446744073709551616) \<and>
   cell_of (rows big_out ! 0) ''volume'' \<noteq> I64 (100000000000000000 * 100)"
proof -
  have "read_csv big_world (''a'', ''600001_daily.csv'') = Inr big_unadjusted"
    by (simp add: read_csv_def big_world_def)
  moreover have "map_of (files big_after) (''o'', ''SH600001.csv'') = Some (Csv big_out)"
    by (simp add: big_after_def big_world_def)
  moreover have "length (rows big_unadjusted) = 1 \<and>
      cell_of (rows big_unadjusted ! 0) col_chengjiaoliang = I64 100000000000000000"
    by (simp add: big_unadjusted_def unadjusted_def cell_of_Cons name_neqs)
  moreover have "length (rows big_out) = 1 \<and>
      cell_of (rows big_out ! 0) ''volume'' = I64 (- 8446744073709551616) \<and>
      cell_of (rows big_out ! 0) ''volume'' \<noteq> I64 (100000000000000000 * 100)"
    by (simp add: big_out_def cell_of_Cons)
  ultimately show ?thesis
    using big_process_after by blast
qed

text \<open>
  C4: the table a successful call writes has the columns date, open, high, low, close,
  volume, amount, vwap, factor, in this order and no other (so neither a forward-adjusted
  column nor a row-index column), in the header and in every row. The open, high, low and
  close of a row are those of a row of the backward-adjusted file with the same normalized
  date, or NaN when that file has no row of this date.
\<close>

theorem output_carries_backward_adjusted_prices:
  assumes "process_stock_data to_ymd stock_code dn dh dq dd w = Inr (True, w')"
    and "read_csv w (dh, stock_code @ ''_daily_hfq.csv'') = Inr hfq_df"
  shows "\<exists>out. map_of (files w') (dd, exchange_of stock_code @ stock_code @ ''.csv'') = Some (Csv out) \<and>
           columns out =
             [''date'', ''open'', ''high'', ''low'', ''close'', ''volume'', ''amount'', ''vwap'', ''factor''] \<and>
           (\<forall>r \<in> set (rows out).
              map fst r =
                [''date'', ''open'', ''high'', ''low'', ''close'', ''volume'', ''amount'', ''vwap'', ''factor''] \<and>
              ((\<exists>b \<in> set (rows hfq_df).
                  to_ymd (cell_of b col_riqi) = Inr (cell_of r ''date'') \<and>
                  cell_of r ''open'' = cell_of b col_kaipan \<and>
                  cell_of r ''high'' = cell_of b col_zuigao \<and>
                  cell_of r ''low'' = cell_of b col_zuidi \<and>
                  cell_of r ''close'' = cell_of b col_shoupan) \<or>
               ((\<forall>b \<in> set (rows hfq_df). to_ymd (cell_of b col_riqi) \<noteq> Inr (cell_of r ''date'')) \<and>
                  cell_of r ''open'' = nan \<and> cell_of r ''high'' = nan \<and>
                  cell_of r ''low'' = nan \<and> cell_of r ''close'' = nan)))"
proof -
  from process_emits[OF assms(1)] assms(2) obtain a0 q0 where
    ok: "table_ok to_ymd a0 hfq_df q0" and
    written: "map_of (files w') (dd, exchange_of stock_code @ stock_code @ ''.csv'') =
             Some (Csv \<lparr>columns = [''date'', ''open'', ''high'', ''low'', ''close'', ''volume'',
                                   ''amount'', ''vwap'', ''factor''],
                        rows = out_rows (norm to_ymd a0) (norm to_ymd hfq_df) (norm to_ymd q0)\<rparr>)"
    by auto
  show ?thesis
    using written emitted_prices[OF ok] out_rows_names by simp
qed

theorem output_carries_backward_adjusted_prices_witness:
  "process_stock_data ymd ''600001'' ''a'' ''h'' ''q'' ''o'' sample_world = Inr (True, sample_after) \<and>
   read_csv sample_world (''h'', ''600001_daily_hfq.csv'') = Inr sample_hfq \<and>
   (\<exists>out. map_of (files sample_after) (''o'', ''SH600001.csv'') = Some (Csv out) \<and>
      columns out =
        [''date'', ''open'', ''high'', ''low'', ''close'', ''volume'', ''amount'', ''vwap'', ''factor''] \<and>
      (\<forall>r \<in> set (rows out).
         map fst r =
           [''date'', ''open'', ''high'', ''low'', ''close'', ''volume'', ''amount'', ''vwap'', ''factor''] \<and>
         ((\<exists>b \<in> set (rows sample_hfq).
             ymd (cell_of b col_riqi) = Inr (cell_of r ''date'') \<and>
             cell_of r ''open'' = cell_of b col_kaipan \<and>
             cell_of r ''high'' = cell_of b col_zuigao \<and>
             cell_of r ''low'' = cell_of b col_zuidi \<and>
             cell_of r ''close'' = cell_of b col_shoupan) \<or>
          ((\<forall>b \<in> set (rows sample_hfq). ymd (cell_of b col_riqi) \<noteq> Inr (cell_of r ''date'')) \<and>
             cell_of r ''open'' = nan \<and> cell_of r ''high'' = nan \<and>
             cell_of r ''low'' = nan \<and> cell_of r ''close'' = nan)))) \<and>
   map_of (files sample_after) (''o'', ''SH600001.csv'') = Some (Csv sample_out) \<and>
   cell_of (rows sample_out ! 0) ''date'' = Str ''2024-01-02'' \<and>
   cell_of (rows sample_hfq ! 0) col_riqi = Str ''2024-01-02'' \<and>
   cell_of (rows sample_out ! 0) ''close'' = cell_of (rows sample_hfq ! 0) col_shoupan \<and>
   cell_of (rows sample_out ! 2) ''date'' = Str ''2024-01-04'' \<and>
   cell_of (rows sample_out ! 2) ''close'' = nan"
proof -
  from output_carries_backward_adjusted_prices[where to_ymd = ymd and stock_code = "''600001''" and dn = "''a''"
      and dh = "''h''" and dq = "''q''" and dd = "''o''" and w = sample_world and w' = sample_after
      and hfq_df = sample_hfq]
    sample_process sample_read_hfq
  have "\<exists>out. map_of (files sample_after) (''o'', ''SH600001.csv'') = Some (Csv out) \<and>
      columns out =
        [''date'', ''open'', ''high'', ''low'', ''close'', ''volume'', ''amount'', ''vwap'', ''factor''] \<and>
      (\<forall>r \<in> set (rows out).
         map fst r =
           [''date'', ''open'', ''high'', ''low'', ''close'', ''volume'', ''amount'', ''vwap'', ''factor''] \<and>
         ((\<exists>b \<in> set (rows sample_hfq).
             ymd (cell_of b col_riqi) = Inr (cell_of r ''date'') \<and>
             cell_of r ''open'' = cell_of b col_kaipan \<and>
             cell_of r ''high'' = cell_of b col_zuigao \<and>
             cell_of r ''low'' = cell_of b col_zuidi \<and>
             cell_of r ''close'' = cell_of b col_shoupan) \<or>
          ((\<forall>b \<in> set (rows sample_hfq). ymd (cell_of b col_riqi) \<noteq> Inr (cell_of r ''date'')) \<and>
             cell_of r ''open'' = nan \<and> cell_of r ''high'' = nan \<and>
             cell_of r ''low'' = nan \<and> cell_of r ''close'' = nan)))"
    by (simp add: exchange_of_def startswith_def)
  moreover have "cell_of (rows sample_out ! 0) ''date'' = Str ''2024-01-02'' \<and>
      cell_of (rows sample_out ! 2) ''date'' = Str ''2024-01-04'' \<and>
      cell_of (rows sample_out ! 2) ''close'' = nan"
    by (simp add: sample_out_def cell_of_Cons nan_def)
  moreover have "cell_of (rows sample_hfq ! 0) col_riqi = Str ''2024-01-02'' \<and>
      cell_of (rows sample_out ! 0) ''close'' = cell_of (rows sample_hfq ! 0) col_shoupan"
    by (simp add: sample_out_def sample_defs cell_of_Cons name_neqs)
  ultimately show ?thesis
    using sample_process sample_read_hfq sample_written by blast
qed

text \<open>
  C1, as amended: when no date occurs twice in the backward-adjusted file and none occurs
  twice in the forward-adjusted file (dates compared after normalization), the table a
  successful call writes has one row for each row of the unadjusted file, in the same
  order; row \<open>i\<close> has the normalized date of the unadjusted row \<open>i\<close>, and its factor is its
  close, the backward-adjusted close of that date, divided by the close of the unadjusted
  row \<open>i\<close>. The unadjusted close is taken by row position, not through the join.
\<close>

theorem factor_is_close_over_unadjusted_close:
  assumes "process_stock_data to_ymd stock_code dn dh dq dd w = Inr (True, w')"
    and "read_csv w (dn, stock_code @ ''_daily.csv'') = Inr no_adj_df"
    and "read_csv w (dh, stock_code @ ''_daily_hfq.csv'') = Inr hfq_df"
    and "read_csv w (dq, stock_code @ ''_daily_qfq.csv'') = Inr qfq_df"
    and "distinct (map (\<lambda>r. to_ymd (cell_of r col_riqi)) (rows hfq_df))"
    and "distinct (map (\<lambda>r. to_ymd (cell_of r col_riqi)) (rows qfq_df))"
  shows "\<exists>out. map_of (files w') (dd, exchange_of stock_code @ stock_code @ ''.csv'') = Some (Csv out) \<and>
           length (rows out) = length (rows no_adj_df) \<and>
           (\<forall>i < length (rows no_adj_df).
              to_ymd (cell_of (rows no_adj_df ! i) col_riqi) = Inr (cell_of (rows out ! i) ''date'') \<and>
              cell_div (cell_of (rows out ! i) ''close'') (cell_of (rows no_adj_df ! i) col_shoupan) =
                Inr (cell_of (rows out ! i) ''factor''))"
proof -
  note p = process_emits_named[OF assms(1-4)]
  note e = emitted_positional[OF p(1) assms(5,6)]
  from p(2) e show ?thesis by simp
qed

theorem factor_is_close_over_unadjusted_close_witness:
  "process_stock_data ymd ''600001'' ''a'' ''h'' ''q'' ''o'' sample_world = Inr (True, sample_after) \<and>
   read_csv sample_world (''a'', ''600001_daily.csv'') = Inr sample_unadjusted \<and>
   read_csv sample_world (''h'', ''600001_daily_hfq.csv'') = Inr sample_hfq \<and>
   read_csv sample_world (''q'', ''600001_daily_qfq.csv'') = Inr sample_qfq \<and>
   distinct (map (\<lambda>r. ymd (cell_of r col_riqi)) (rows sample_hfq)) \<and>
   distinct (map (\<lambda>r. ymd (cell_of r col_riqi)) (rows sample_qfq)) \<and>
   map_of (files sample_after) (''o'', ''SH600001.csv'') = Some (Csv sample_out) \<and>
   length (rows sample_out) = length (rows sample_unadjusted) \<and>
   ymd (cell_of (rows sample_unadjusted ! 1) col_riqi) = Inr (cell_of (rows sample_out ! 1) ''date'') \<and>
   cell_div (cell_of (rows sample_out ! 1) ''close'') (cell_of (rows sample_unadjusted ! 1) col_shoupan) =
     Inr (cell_of (rows sample_out ! 1) ''factor'') \<and>
   cell_of (rows sample_out ! 1) ''close'' = F64 (Fin 22) \<and>
   cell_of (rows sample_unadjusted ! 1) col_shoupan = F64 (Fin 20) \<and>
   cell_of (rows sample_out ! 1) ''factor'' = F64 (Fin (11 / 10))"
proof -
  have l: "(1::nat) < length (rows sample_unadjusted)"
    by (simp add: sample_defs)
  from factor_is_close_over_unadjusted_close[where to_ymd = ymd and stock_code = "''600001''"
      and dn = "''a''" and dh = "''h''" and dq = "''q''" and dd = "''o''" and w = sample_world
      and w' = sample_after and no_adj_df = sample_unadjusted and hfq_df = sample_hfq
      and qfq_df = sample_qfq]
    sample_process sample_read_unadjusted sample_read_hfq sample_read_qfq sample_dates_distinct
    sample_written
  have "length (rows sample_out) = length (rows sample_unadjusted) \<and>
     (\<forall>i < length (rows sample_unadjusted).
        ymd (cell_of (rows sample_unadjusted ! i) col_riqi) = Inr (cell_of (rows sample_out ! i) ''date'') \<and>
        cell_div (cell_of (rows sample_out ! i) ''close'') (cell_of (rows sample_unadjusted ! i) col_shoupan) =
          Inr (cell_of (rows sample_out ! i) ''factor''))"
    by (simp add: exchange_of_def startswith_def)
  with l have "length (rows sample_out) = length (rows sample_unadjusted) \<and>
     ymd (cell_of (rows sample_unadjusted ! 1) col_riqi) = Inr (cell_of (rows sample_out ! 1) ''date'') \<and>
     cell_div (cell_of (rows sample_out ! 1) ''close'') (cell_of (rows sample_unadjusted ! 1) col_shoupan) =
       Inr (cell_of (rows sample_out ! 1) ''factor'')"
    by blast
  moreover have "cell_of (rows sample_out ! 1) ''close'' = F64 (Fin 22) \<and>
      cell_of (rows sample_out ! 1) ''factor'' = F64 (Fin (11 / 10))"
    by (simp add: sample_out_def cell_of_Cons)
  moreover have "cell_of (rows sample_unadjusted ! 1) col_shoupan = F64 (Fin 20)"
    by (simp add: sample_defs cell_of_Cons name_neqs)
  ultimately show ?thesis
    using sample_process sample_read_unadjusted sample_read_hfq sample_read_qfq
      sample_dates_distinct sample_written
    by blast
qed

theorem factor_same_date_counterexample:
  "process_stock_data ymd ''000001'' ''a'' ''h'' ''q'' ''o'' dup_world = Inr (True, dup_after) \<and>
   read_csv dup_world (''a'', ''000001_daily.csv'') = Inr dup_unadjusted \<and>
   read_csv dup_world (''h'', ''000001_daily_hfq.csv'') = Inr dup_hfq \<and>
   map_of (files dup_after) (''o'', ''SZ000001.csv'') = Some (Csv dup_out) \<and>
   length (rows dup_unadjusted) = 2 \<and>
   cell_of (rows dup_unadjusted ! 0) col_riqi = Str ''2024-01-02'' \<and>
   cell_of (rows dup_unadjusted ! 0) col_shoupan = F64 (Fin 10) \<and>
   cell_of (rows dup_unadjusted ! 1) col_riqi = Str ''2024-01-03'' \<and>
   cell_of (rows dup_unadjusted ! 1) col_shoupan = F64 (Fin 20) \<and>
   cell_of (rows dup_out ! 1) ''date'' = Str ''2024-01-02'' \<and>
   cell_of (rows dup_out ! 1) ''close'' = F64 (Fin 22) \<and>
   cell_of (rows dup_out ! 1) ''factor'' = F64 (Fin (11 / 10)) \<and>
   cell_div (F64 (Fin 22)) (F64 (Fin 10)) = Inr (F64 (Fin (11 / 5))) \<and>
   cell_div (cell_of (rows dup_out ! 1) ''close'') (cell_of (rows dup_unadjusted ! 0) col_shoupan)
     \<noteq> Inr (cell_of (rows dup_out ! 1) ''factor'')"
proof -
  have "length (rows dup_unadjusted) = 2 \<and>
   cell_of (rows dup_unadjusted ! 0) col_riqi = Str ''2024-01-02'' \<and>
   cell_of (rows dup_unadjusted ! 0) col_shoupan = F64 (Fin 10) \<and>
   cell_of (rows dup_unadjusted ! 1) col_riqi = Str ''2024-01-03'' \<and>
   cell_of (rows dup_unadjusted ! 1) col_shoupan = F64 (Fin 20)"
    by (simp add: dup_unadjusted_def unadjusted_def cell_of_Cons name_neqs)
  moreover have "cell_of (rows dup_out ! 1) ''date'' = Str ''2024-01-02'' \<and>
   cell_of (rows dup_out ! 1) ''close'' = F64 (Fin 22) \<and>
   cell_of (rows dup_out ! 1) ''factor'' = F64 (Fin (11 / 10))"
    by (simp add: dup_out_def cell_of_Cons)
  moreover have "cell_div (F64 (Fin 22)) (F64 (Fin 10)) = Inr (F64 (Fin (11 / 5)))"
    by (simp add: cell_div_def)
  ultimately show ?thesis
    using dup_process dup_reads dup_written by simp
qed

text \<open>
  C3, as amended: the table a successful call writes has at least as many rows as the
  unadjusted file, and exactly as many when no date occurs twice in the backward-adjusted
  file and none occurs twice in the forward-adjusted file (dates compared after
  normalization). A left join repeats a left row once for each right row of its date.
\<close>

theorem row_count_preserved_for_unique_dates:
  assumes "process_stock_data to_ymd stock_code dn dh dq dd w = Inr (True, w')"
    and "read_csv w (dn, stock_code @ ''_daily.csv'') = Inr no_adj_df"
    and "read_csv w (dh, stock_code @ ''_daily_hfq.csv'') = Inr hfq_df"
    and "read_csv w (dq, stock_code @ ''_daily_qfq.csv'') = Inr qfq_df"
  shows "\<exists>out. map_of (files w') (dd, exchange_of stock_code @ stock_code @ ''.csv'') = Some (Csv out) \<and>
           length (rows no_adj_df) \<le> length (rows out) \<and>
           (distinct (map (\<lambda>r. to_ymd (cell_of r col_riqi)) (rows hfq_df)) \<and>
            distinct (map (\<lambda>r. to_ymd (cell_of r col_riqi)) (rows qfq_df)) \<longrightarrow>
              length (rows out) = length (rows no_adj_df))"
proof -
  note p = process_emits_named[OF assms(1-4)]
  have "length (rows no_adj_df) \<le>
      length (out_rows (norm to_ymd no_adj_df) (norm to_ymd hfq_df) (norm to_ymd qfq_df))"
    using length_joined[of "norm to_ymd no_adj_df" "norm to_ymd hfq_df" "norm to_ymd qfq_df"]
    by (simp add: length_out_rows norm_def)
  with p(2) emitted_positional(1)[OF p(1)] show ?thesis by simp
qed

theorem row_count_preserved_witness:
  "process_stock_data ymd ''600001'' ''a'' ''h'' ''q'' ''o'' sample_world = Inr (True, sample_after) \<and>
   read_csv sample_world (''a'', ''600001_daily.csv'') = Inr sample_unadjusted \<and>
   read_csv sample_world (''h'', ''600001_daily_hfq.csv'') = Inr sample_hfq \<and>
   read_csv sample_world (''q'', ''600001_daily_qfq.csv'') = Inr sample_qfq \<and>
   distinct (map (\<lambda>r. ymd (cell_of r col_riqi)) (rows sample_hfq)) \<and>
   distinct (map (\<lambda>r. ymd (cell_of r col_riqi)) (rows sample_qfq)) \<and>
   map_of (files sample_after) (''o'', ''SH600001.csv'') = Some (Csv sample_out) \<and>
   length (rows sample_unadjusted) = 3 \<and>
   length (rows sample_out) = length (rows sample_unadjusted)"
proof -
  from row_count_preserved_for_unique_dates[where to_ymd = ymd and stock_code = "''600001''"
      and dn = "''a''" and dh = "''h''" and dq = "''q''" and dd = "''o''" and w = sample_world
      and w' = sample_after and no_adj_df = sample_unadjusted and hfq_df = sample_hfq
      and qfq_df = sample_qfq]
    sample_process sample_read_unadjusted sample_read_hfq sample_read_qfq sample_dates_distinct
    sample_written
  have "length (rows sample_out) = length (rows sample_unadjusted)"
    by (simp add: exchange_of_def startswith_def)
  moreover have "length (rows sample_unadjusted) = 3"
    by (simp add: sample_defs)
  ultimately show ?thesis
    using sample_process sample_read_unadjusted sample_read_hfq sample_read_qfq
      sample_dates_distinct sample_written
    by blast
qed

theorem row_count_counterexample:
  "process_stock_data ymd ''000001'' ''a'' ''h'' ''q'' ''o'' dup_world = Inr (True, dup_after) \<and>
   read_csv dup_world (''a'', ''000001_daily.csv'') = Inr dup_unadjusted \<and>
   read_csv dup_world (''h'', ''000001_daily_hfq.csv'') = Inr dup_hfq \<and>
   read_csv dup_world (''q'', ''000001_daily_qfq.csv'') = Inr sample_qfq \<and>
   map_of (files dup_after) (''o'', ''SZ000001.csv'') = Some (Csv dup_out) \<and>
   length (rows dup_unadjusted) = 2 \<and>
   length (rows dup_out) = 3"
proof -
  have "length (rows dup_unadjusted) = 2"
    by (simp add: dup_unadjusted_def unadjusted_def)
  moreover have "length (rows dup_out) = 3"
    by (simp add: dup_out_def)
  ultimately show ?thesis
    using dup_process dup_reads dup_written by simp
qed

end
